theory Spec2Isabelle
  imports Main "HOL-Library.Sublist"
begin

section \<open>JavaScript values\<close>

text \<open>
  The router of \<^verbatim>\<open>core/router.js\<close> is written in JavaScript. Strings are modelled as
  lists of code units below 256 (\<^typ>\<open>string\<close>). The numbers are those that
  \<^verbatim>\<open>parseInt\<close> can return: the finite numbers with an integer value (\<open>Num n\<close>, where
  \<open>n\<close> is an integer that a double holds exactly, and \<open>Num 0\<close> is the positive zero), the
  negative zero, the two infinities and \<^verbatim>\<open>NaN\<close>. Objects used as dictionaries are maps
  from the names of their own properties; what they inherit from \<^verbatim>\<open>Object.prototype\<close> is
  added where a property is read.
\<close>

datatype jsval =
    Undefined
  | Null
  | Bool bool
  | Str string
  | Num int
  | NegZero
  | Infinity
  | NegInfinity
  | NaN
  | Arr "jsval list"

datatype error =
    NoRoutes string \<comment> \<open>\<^verbatim>\<open>new Error("No routes for the destination: " + ...)\<close>\<close>
  | TypeError \<comment> \<open>calling \<^verbatim>\<open>.map\<close> on a value that has none\<close>
  | URIError \<comment> \<open>raised by \<^verbatim>\<open>decodeURIComponent\<close> on a malformed escape\<close>
  | SyntaxError \<comment> \<open>raised by \<^verbatim>\<open>new RegExp\<close>\<close>
  | Unmodelled \<comment> \<open>the input leaves the fragment of JavaScript modelled here\<close>

definition char_code :: "char \<Rightarrow> nat" where
  "char_code c = of_char c"

definition is_digit :: "char \<Rightarrow> bool" where
  "is_digit c = (c \<in> set ''0123456789'')"

definition is_word :: "char \<Rightarrow> bool" where
  "is_word c =
     (c \<in> set ''abcdefghijklmnopqrstuvwxyzABCDEFGHIJKLMNOPQRSTUVWXYZ0123456789_'')"

definition is_space :: "char \<Rightarrow> bool" where
  "is_space c = (char_code c \<in> {9, 10, 11, 12, 13, 32, 160})"

definition is_line_terminator :: "char \<Rightarrow> bool" where
  "is_line_terminator c = (char_code c \<in> {10, 13})"

text \<open>\<^verbatim>\<open>x == null\<close> and truthiness.\<close>

fun nullish :: "jsval \<Rightarrow> bool" where
  "nullish Undefined = True"
| "nullish Null = True"
| "nullish _ = False"

fun falsy :: "jsval \<Rightarrow> bool" where
  "falsy Undefined = True"
| "falsy Null = True"
| "falsy (Bool b) = (\<not> b)"
| "falsy (Str s) = (s = [])"
| "falsy (Num n) = (n = 0)"
| "falsy NegZero = True"
| "falsy Infinity = False"
| "falsy NegInfinity = False"
| "falsy NaN = True"
| "falsy (Arr xs) = False"

subsection \<open>Numbers and strings\<close>

definition digit_char :: "nat \<Rightarrow> char" where
  "digit_char d = ''0123456789'' ! (d mod 10)"

fun string_of_nat :: "nat \<Rightarrow> string" where
  "string_of_nat n =
     (if n < 10 then [digit_char n] else string_of_nat (n div 10) @ [digit_char (n mod 10)])"

text \<open>
  The number value of a natural number: the nearest double, the even one of two that are
  equally near, and infinity (\<open>None\<close>) from \<open>2 ^ 1024\<close> on. A double has 53 binary
  digits.
\<close>

fun bits :: "nat \<Rightarrow> nat" where
  "bits n = (if n = 0 then 0 else Suc (bits (n div 2)))"

definition to_double :: "nat \<Rightarrow> nat option" where
  "to_double n =
     (let e = bits n - 53;
          q = n div 2 ^ e;
          r = n mod 2 ^ e;
          q' = (if 2 ^ e < 2 * r \<or> (2 * r = 2 ^ e \<and> odd q) then q + 1 else q)
      in if 2 ^ 1024 \<le> q' * 2 ^ e then None else Some (q' * 2 ^ e))"

text \<open>
  The text of a number \<open>x\<close>, as \<^verbatim>\<open>Number.prototype.toString\<close> defines it: with the
  fewest digits \<open>k\<close>, the digits \<open>s\<close> and the exponent \<open>n\<close> such that the number value of
  \<open>s * 10 ^ (n - k)\<close> is \<open>x\<close>; among several \<open>s\<close> the one nearest to \<open>x\<close>. The digits
  are followed by zeros up to \<open>n = 21\<close> and written with an exponent beyond. Up to
  \<open>2 ^ 53\<close> every natural number is a number value, and its text is its decimal text.
\<close>

definition candidates :: "nat \<Rightarrow> nat \<Rightarrow> nat \<Rightarrow> (nat \<times> nat \<times> nat) list" where
  "candidates x k n =
     (let p = 10 ^ (n - k)
      in map (\<lambda>s. (if s * p < x then x - s * p else s * p - x, s, n))
           (filter (\<lambda>s. 10 ^ (k - 1) \<le> s \<and> s < 10 ^ k \<and> to_double (s * p) = Some x)
              [x div p, x div p + 1]))"

fun closest :: "(nat \<times> nat \<times> nat) list \<Rightarrow> (nat \<times> nat \<times> nat) option" where
  "closest [] = None"
| "closest (c # cs) =
     (case closest cs of
        None \<Rightarrow> Some c
      | Some d \<Rightarrow>
          if fst c < fst d \<or> (fst c = fst d \<and> even (fst (snd c))) then Some c else Some d)"

fun shortest :: "nat \<Rightarrow> nat \<Rightarrow> nat \<Rightarrow> nat \<times> nat" where
  "shortest 0 k x = (x, length (string_of_nat x))"
| "shortest (Suc fuel) k x =
     (let n = length (string_of_nat x)
      in case closest (candidates x k n @ candidates x k (n + 1)) of
           Some (d, s, n') \<Rightarrow> (s, n')
         | None \<Rightarrow> shortest fuel (Suc k) x)"

definition number_text :: "nat \<Rightarrow> string" where
  "number_text x =
     (if x \<le> 2 ^ 53 then string_of_nat x
      else (case shortest 17 1 x of
              (s, n) \<Rightarrow>
                (let ds = string_of_nat s; k = length ds
                 in if n \<le> 21 then ds @ replicate (n - k) CHR ''0''
                    else if k = 1 then ds @ ''e+'' @ string_of_nat (n - 1)
                    else hd ds # CHR ''.'' # tl ds @ ''e+'' @ string_of_nat (n - 1))))"

definition string_of_int :: "int \<Rightarrow> string" where
  "string_of_int i = (if i < 0 then CHR ''-'' # number_text (nat (- i)) else number_text (nat i))"

fun join :: "string \<Rightarrow> string list \<Rightarrow> string" where
  "join sep [] = []"
| "join sep [x] = x"
| "join sep (x # y # xs) = x @ sep @ join sep (y # xs)"

text \<open>\<^verbatim>\<open>"" + v\<close>: the string conversion of a value; an array joins its elements with
  commas, writing nothing for \<^verbatim>\<open>null\<close> and \<^verbatim>\<open>undefined\<close> elements.\<close>

fun ToString :: "jsval \<Rightarrow> string" where
  "ToString Undefined = ''undefined''"
| "ToString Null = ''null''"
| "ToString (Bool b) = (if b then ''true'' else ''false'')"
| "ToString (Str s) = s"
| "ToString (Num n) = string_of_int n"
| "ToString NegZero = ''0''"
| "ToString Infinity = ''Infinity''"
| "ToString NegInfinity = ''-Infinity''"
| "ToString NaN = ''NaN''"
| "ToString (Arr xs) = join '','' (map (\<lambda>x. if nullish x then [] else ToString x) xs)"

definition digit_val :: "char \<Rightarrow> nat" where
  "digit_val c = char_code c - 48"

definition nat_of_digits :: "string \<Rightarrow> nat" where
  "nat_of_digits ds = foldl (\<lambda>a c. 10 * a + digit_val c) 0 ds"

text \<open>\<^verbatim>\<open>parseInt(s, 10)\<close>: leading white space, an optional sign, the longest run of
  digits; \<^verbatim>\<open>NaN\<close> when there is no digit, and otherwise the number value of the integer
  that the digits write, with the sign.\<close>

definition parseInt :: "string \<Rightarrow> jsval" where
  "parseInt s =
     (let t = dropWhile is_space s;
          neg = (case t of [] \<Rightarrow> False | c # _ \<Rightarrow> c = CHR ''-'');
          u = (case t of [] \<Rightarrow> [] | c # r \<Rightarrow> if c = CHR ''-'' \<or> c = CHR ''+'' then r else t);
          ds = takeWhile is_digit u
      in if ds = [] then NaN
         else (case to_double (nat_of_digits ds) of
                 None \<Rightarrow> if neg then NegInfinity else Infinity
               | Some m \<Rightarrow>
                   if neg then (if m = 0 then NegZero else Num (- int m)) else Num (int m)))"

text \<open>\<^verbatim>\<open>s.split(sep)\<close> for a one-character separator.\<close>

fun split :: "char \<Rightarrow> string \<Rightarrow> string list" where
  "split sep [] = [[]]"
| "split sep (c # s) =
     (if c = sep then [] # split sep s
      else (case split sep s of [] \<Rightarrow> [[c]] | x # xs \<Rightarrow> (c # x) # xs))"

subsection \<open>Percent encoding\<close>

definition hex_char :: "nat \<Rightarrow> char" where
  "hex_char d = ''0123456789ABCDEF'' ! (d mod 16)"

definition hex_val :: "char \<Rightarrow> nat option" where
  "hex_val c =
     (if is_digit c then Some (char_code c - 48)
      else if c \<in> set ''ABCDEF'' then Some (char_code c - 55)
      else if c \<in> set ''abcdef'' then Some (char_code c - 87)
      else None)"

definition uri_unreserved :: "char \<Rightarrow> bool" where
  "uri_unreserved c =
     (c \<in> set ''abcdefghijklmnopqrstuvwxyzABCDEFGHIJKLMNOPQRSTUVWXYZ0123456789-_.!~*'' \<or>
      c = CHR 0x27 \<or> c = CHR ''('' \<or> c = CHR '')'')"

definition percent :: "nat \<Rightarrow> string" where
  "percent b = [CHR ''%'', hex_char (b div 16), hex_char (b mod 16)]"

text \<open>\<^verbatim>\<open>encodeURIComponent\<close>: every code unit outside the unreserved set is written as
  the escapes of its UTF-8 bytes (one byte below 128, two from 128 to 255).\<close>

definition encode_char :: "char \<Rightarrow> string" where
  "encode_char c =
     (let n = char_code c
      in if uri_unreserved c then [c]
         else if n < 128 then percent n
         else percent (192 + n div 64) @ percent (128 + n mod 64))"

definition encodeURIComponent :: "jsval \<Rightarrow> string" where
  "encodeURIComponent v = concat (map encode_char (ToString v))"

text \<open>\<^verbatim>\<open>decodeURIComponent\<close>: an escape must be \<^verbatim>\<open>%\<close> and two hexadecimal digits; a
  byte of 128 or more must start a well-formed UTF-8 sequence. The sequences of lead bytes
  \<^verbatim>\<open>C2\<close> and \<^verbatim>\<open>C3\<close> decode to the code units from 128 to 255; a lead byte from
  \<^verbatim>\<open>C4\<close> to \<^verbatim>\<open>F4\<close> either raises or yields a code unit that a \<^typ>\<open>char\<close> cannot
  hold, which the model reports as \<^const>\<open>Unmodelled\<close>.\<close>

datatype octet = Raw char | Escaped nat

fun unescape :: "string \<Rightarrow> error + octet list" where
  "unescape [] = Inr []"
| "unescape (c # s) =
     (if c = CHR ''%'' then
        (case s of
           h1 # h2 # r \<Rightarrow>
             (case (hex_val h1, hex_val h2) of
                (Some a, Some b) \<Rightarrow>
                  (case unescape r of Inl e \<Rightarrow> Inl e | Inr os \<Rightarrow> Inr (Escaped (16 * a + b) # os))
              | _ \<Rightarrow> Inl URIError)
         | _ \<Rightarrow> Inl URIError)
      else (case unescape s of Inl e \<Rightarrow> Inl e | Inr os \<Rightarrow> Inr (Raw c # os)))"

fun utf8 :: "octet list \<Rightarrow> error + string" where
  "utf8 [] = Inr []"
| "utf8 (Raw c # os) = (case utf8 os of Inl e \<Rightarrow> Inl e | Inr s \<Rightarrow> Inr (c # s))"
| "utf8 (Escaped b # os) =
     (if b < 128 then (case utf8 os of Inl e \<Rightarrow> Inl e | Inr s \<Rightarrow> Inr (char_of b # s))
      else if b < 194 \<or> 244 < b then Inl URIError
      else if 196 \<le> b then Inl Unmodelled
      else (case os of
              Escaped b2 # os' \<Rightarrow>
                (if 128 \<le> b2 \<and> b2 < 192 then
                   (case utf8 os' of
                      Inl e \<Rightarrow> Inl e
                    | Inr s \<Rightarrow> Inr (char_of (64 * (b - 192) + (b2 - 128)) # s))
                 else Inl URIError)
            | _ \<Rightarrow> Inl URIError))"

definition decodeURIComponent :: "string \<Rightarrow> error + string" where
  "decodeURIComponent s = (case unescape s of Inl e \<Rightarrow> Inl e | Inr os \<Rightarrow> utf8 os)"

section \<open>Regular expressions\<close>

text \<open>
  The router builds the source text of a regular expression and hands it to
  \<^verbatim>\<open>new RegExp\<close>. The fragment of the regular expression language that the router can
  generate is modelled here: its syntax tree, the reading of a source text into a tree, and
  the backtracking matcher, which returns the matches of a tree in the order in which
  backtracking meets them (the first one is the match that \<^verbatim>\<open>exec\<close> reports).
\<close>

type_synonym caps = "nat \<rightharpoonup> string"

datatype citem = CChar char | CRange char char | CDigit | CWord | CSpace | CNot citem

datatype regex =
    Empty
  | Chr char
  | Dot
  | Cls bool "citem list" \<comment> \<open>\<^verbatim>\<open>[...]\<close>, negated when the flag is set\<close>
  | Bol
  | Eol
  | Seq regex regex
  | Alt regex regex
  | Star regex
  | Plus regex
  | Opt regex
  | Group nat regex \<comment> \<open>capturing parentheses, numbered from 1 by their opening\<close>

subsection \<open>Matching\<close>

definition canonicalize :: "char \<Rightarrow> char" where
  "canonicalize c =
     (let n = char_code c
      in if (97 \<le> n \<and> n \<le> 122) \<or> (224 \<le> n \<and> n \<le> 254 \<and> n \<noteq> 247)
         then char_of (n - 32) else c)"

definition lower_case :: "char \<Rightarrow> char" where
  "lower_case c =
     (let n = char_code c
      in if (65 \<le> n \<and> n \<le> 90) \<or> (192 \<le> n \<and> n \<le> 222 \<and> n \<noteq> 215)
         then char_of (n + 32) else c)"

definition char_eq :: "bool \<Rightarrow> char \<Rightarrow> char \<Rightarrow> bool" where
  "char_eq ic c x = (if ic then canonicalize c = canonicalize x else c = x)"

fun item_has :: "citem \<Rightarrow> char \<Rightarrow> bool" where
  "item_has (CChar x) c = (x = c)"
| "item_has (CRange a b) c = (char_code a \<le> char_code c \<and> char_code c \<le> char_code b)"
| "item_has CDigit c = is_digit c"
| "item_has CWord c = is_word c"
| "item_has CSpace c = is_space c"
| "item_has (CNot i) c = (\<not> item_has i c)"

definition class_has :: "bool \<Rightarrow> bool \<Rightarrow> citem list \<Rightarrow> char \<Rightarrow> bool" where
  "class_has ic neg items c =
     (let cands = (if ic then [c, canonicalize c, lower_case c] else [c]);
          found = list_ex (\<lambda>i. list_ex (item_has i) cands) items
      in if neg then \<not> found else found)"

fun groups :: "regex \<Rightarrow> nat list" where
  "groups (Seq a b) = groups a @ groups b"
| "groups (Alt a b) = groups a @ groups b"
| "groups (Star a) = groups a"
| "groups (Plus a) = groups a"
| "groups (Opt a) = groups a"
| "groups (Group i a) = i # groups a"
| "groups _ = []"

text \<open>Each round of a quantifier starts with the captures of the groups inside it cleared.\<close>

definition reset :: "regex \<Rightarrow> caps \<Rightarrow> caps" where
  "reset a cs = (\<lambda>i. if i \<in> set (groups a) then None else cs i)"

fun weight :: "regex \<Rightarrow> nat" where
  "weight (Seq a b) = Suc (weight a + weight b)"
| "weight (Alt a b) = Suc (weight a + weight b)"
| "weight (Star a) = Suc (weight a)"
| "weight (Plus a) = Suc (Suc (weight a))"
| "weight (Opt a) = Suc (weight a)"
| "weight (Group i a) = Suc (weight a)"
| "weight _ = 0"

text \<open>
  \<open>ms ic n r s cs\<close>: the ways in which \<open>r\<close> matches a prefix of the rest \<open>s\<close> of an input
  of length \<open>n\<close>, each as the text left over and the captures, greedy choices first. A round
  of \<^verbatim>\<open>*\<close> or \<^verbatim>\<open>?\<close> that consumes nothing is rejected, as the language definition says.
\<close>

function ms :: "bool \<Rightarrow> nat \<Rightarrow> regex \<Rightarrow> string \<Rightarrow> caps \<Rightarrow> (string \<times> caps) list" where
  "ms ic n Empty s cs = [(s, cs)]"
| "ms ic n (Chr c) s cs = (case s of [] \<Rightarrow> [] | x # t \<Rightarrow> if char_eq ic c x then [(t, cs)] else [])"
| "ms ic n Dot s cs = (case s of [] \<Rightarrow> [] | x # t \<Rightarrow> if is_line_terminator x then [] else [(t, cs)])"
| "ms ic n (Cls neg items) s cs =
     (case s of [] \<Rightarrow> [] | x # t \<Rightarrow> if class_has ic neg items x then [(t, cs)] else [])"
| "ms ic n Bol s cs = (if length s = n then [(s, cs)] else [])"
| "ms ic n Eol s cs = (if s = [] then [(s, cs)] else [])"
| "ms ic n (Seq a b) s cs = concat (map (\<lambda>(t, cs'). ms ic n b t cs') (ms ic n a s cs))"
| "ms ic n (Alt a b) s cs = ms ic n a s cs @ ms ic n b s cs"
| "ms ic n (Star a) s cs =
     concat (map (\<lambda>(t, cs'). if length t < length s then ms ic n (Star a) t cs' else [])
                 (ms ic n a s (reset a cs))) @ [(s, cs)]"
| "ms ic n (Plus a) s cs =
     concat (map (\<lambda>(t, cs'). ms ic n (Star a) t cs') (ms ic n a s (reset a cs)))"
| "ms ic n (Opt a) s cs =
     filter (\<lambda>(t, cs'). length t < length s) (ms ic n a s (reset a cs)) @ [(s, cs)]"
| "ms ic n (Group i a) s cs =
     map (\<lambda>(t, cs'). (t, cs'(i \<mapsto> take (length s - length t) s))) (ms ic n a s cs)"
  by pat_completeness auto
termination
  by (relation "(\<lambda>(ic, n, r, s, cs). weight r) <*mlex*> measure (\<lambda>(ic, n, r, s, cs). length s)")
     (auto simp: wf_mlex mlex_less mlex_leq)

subsection \<open>Reading a source text\<close>

datatype catom = AChar char | ADash | AItem citem

fun class_items :: "catom list \<Rightarrow> citem list" where
  "class_items (AChar a # ADash # AChar b # r) = CRange a b # class_items r"
| "class_items (AChar a # r) = CChar a # class_items r"
| "class_items (ADash # r) = CChar CHR ''-'' # class_items r"
| "class_items (AItem i # r) = i # class_items r"
| "class_items [] = []"

fun range_ok :: "citem \<Rightarrow> bool" where
  "range_ok (CRange a b) = (char_code a \<le> char_code b)"
| "range_ok _ = True"

datatype mode =
    Normal
  | Escape
  | Open \<comment> \<open>after \<^verbatim>\<open>(\<close>\<close>
  | OpenQ \<comment> \<open>after \<^verbatim>\<open>(?\<close>\<close>
  | ClassStart \<comment> \<open>after \<^verbatim>\<open>[\<close>\<close>
  | Class bool "catom list"
  | ClassEscape bool "catom list"

datatype akind = Atom | Quantified | Assertion

text \<open>A frame is an open parenthesis: its capture number if it captures, the alternatives
  already closed by \<^verbatim>\<open>|\<close> and the pieces of the current alternative, latest first.\<close>

record frame =
  capture :: "nat option"
  alts :: "regex list"
  pieces :: "(regex \<times> akind) list"

record pstate =
  pmode :: mode
  cur :: frame
  outer :: "frame list"
  ngroups :: nat

fun seq_of :: "regex list \<Rightarrow> regex" where
  "seq_of [] = Empty"
| "seq_of [r] = r"
| "seq_of (r # q # rs) = Seq r (seq_of (q # rs))"

fun alt_of :: "regex list \<Rightarrow> regex" where
  "alt_of [] = Empty"
| "alt_of [r] = r"
| "alt_of (r # q # rs) = Alt r (alt_of (q # rs))"

definition close_alt :: "frame \<Rightarrow> regex" where
  "close_alt f = seq_of (rev (map fst (pieces f)))"

definition frame_regex :: "frame \<Rightarrow> regex" where
  "frame_regex f =
     (let d = alt_of (rev (close_alt f # alts f))
      in case capture f of None \<Rightarrow> d | Some i \<Rightarrow> Group i d)"

definition new_frame :: "nat option \<Rightarrow> frame" where
  "new_frame g = \<lparr>capture = g, alts = [], pieces = []\<rparr>"

definition push_piece :: "regex \<Rightarrow> akind \<Rightarrow> pstate \<Rightarrow> pstate" where
  "push_piece r k st = st\<lparr>pmode := Normal, cur := (cur st)\<lparr>pieces := (r, k) # pieces (cur st)\<rparr>\<rparr>"

definition quantify :: "(regex \<Rightarrow> regex) \<Rightarrow> bool \<Rightarrow> pstate \<Rightarrow> error + pstate" where
  "quantify q lazy st =
     (case pieces (cur st) of
        (r, Atom) # ps \<Rightarrow> Inr (st\<lparr>cur := (cur st)\<lparr>pieces := (q r, Quantified) # ps\<rparr>\<rparr>)
      | (r, Quantified) # ps \<Rightarrow> if lazy then Inl Unmodelled else Inl SyntaxError
      | _ \<Rightarrow> Inl SyntaxError)"

definition normal_step :: "pstate \<Rightarrow> char \<Rightarrow> error + pstate" where
  "normal_step st c =
     (if c = CHR 0x5C then Inr (st\<lparr>pmode := Escape\<rparr>)
      else if c = CHR ''('' then Inr (st\<lparr>pmode := Open\<rparr>)
      else if c = CHR '')'' then
        (case outer st of
           [] \<Rightarrow> Inl SyntaxError
         | f # fs \<Rightarrow>
             Inr (st\<lparr>pmode := Normal, outer := fs,
                      cur := f\<lparr>pieces := (frame_regex (cur st), Atom) # pieces f\<rparr>\<rparr>))
      else if c = CHR ''|'' then
        Inr (st\<lparr>cur := (cur st)\<lparr>alts := close_alt (cur st) # alts (cur st), pieces := []\<rparr>\<rparr>)
      else if c = CHR ''*'' then quantify Star False st
      else if c = CHR ''+'' then quantify Plus False st
      else if c = CHR ''?'' then quantify Opt True st
      else if c = CHR ''{'' then Inl Unmodelled
      else if c = CHR ''['' then Inr (st\<lparr>pmode := ClassStart\<rparr>)
      else if c = CHR ''^'' then Inr (push_piece Bol Assertion st)
      else if c = CHR ''$'' then Inr (push_piece Eol Assertion st)
      else if c = CHR ''.'' then Inr (push_piece Dot Atom st)
      else Inr (push_piece (Chr c) Atom st))"

definition control_escape :: "char \<Rightarrow> char option" where
  "control_escape c =
     (if c = CHR ''t'' then Some (CHR 0x09)
      else if c = CHR ''n'' then Some (CHR 0x0A)
      else if c = CHR ''v'' then Some (CHR 0x0B)
      else if c = CHR ''f'' then Some (CHR 0x0C)
      else if c = CHR ''r'' then Some (CHR 0x0D)
      else None)"

definition class_escape :: "char \<Rightarrow> citem option" where
  "class_escape c =
     (if c = CHR ''d'' then Some CDigit
      else if c = CHR ''D'' then Some (CNot CDigit)
      else if c = CHR ''w'' then Some CWord
      else if c = CHR ''W'' then Some (CNot CWord)
      else if c = CHR ''s'' then Some CSpace
      else if c = CHR ''S'' then Some (CNot CSpace)
      else None)"

definition class_step :: "bool \<Rightarrow> catom list \<Rightarrow> pstate \<Rightarrow> char \<Rightarrow> error + pstate" where
  "class_step neg as st c =
     (if c = CHR '']'' then
        (let items = class_items (rev as)
         in if list_all range_ok items then Inr (push_piece (Cls neg items) Atom st)
            else Inl SyntaxError)
      else if c = CHR 0x5C then Inr (st\<lparr>pmode := ClassEscape neg as\<rparr>)
      else if c = CHR ''-'' then Inr (st\<lparr>pmode := Class neg (ADash # as)\<rparr>)
      else Inr (st\<lparr>pmode := Class neg (AChar c # as)\<rparr>))"

definition pstep :: "pstate \<Rightarrow> char \<Rightarrow> error + pstate" where
  "pstep st c =
     (case pmode st of
        Normal \<Rightarrow> normal_step st c
      | Escape \<Rightarrow>
          (case class_escape c of
             Some i \<Rightarrow> Inr (push_piece (Cls False [i]) Atom st)
           | None \<Rightarrow>
               (case control_escape c of
                  Some x \<Rightarrow> Inr (push_piece (Chr x) Atom st)
                | None \<Rightarrow>
                    if is_digit c \<or> c \<in> set ''bBcxuk'' then Inl Unmodelled
                    else Inr (push_piece (Chr c) Atom st)))
      | Open \<Rightarrow>
          (if c = CHR ''?'' then Inr (st\<lparr>pmode := OpenQ\<rparr>)
           else normal_step
                  (st\<lparr>pmode := Normal, outer := cur st # outer st,
                      cur := new_frame (Some (Suc (ngroups st))), ngroups := Suc (ngroups st)\<rparr>) c)
      | OpenQ \<Rightarrow>
          (if c = CHR '':'' then
             Inr (st\<lparr>pmode := Normal, outer := cur st # outer st, cur := new_frame None\<rparr>)
           else if c \<in> set ''=!<'' then Inl Unmodelled
           else Inl SyntaxError)
      | ClassStart \<Rightarrow>
          (if c = CHR ''^'' then Inr (st\<lparr>pmode := Class True []\<rparr>) else class_step False [] st c)
      | Class neg as \<Rightarrow> class_step neg as st c
      | ClassEscape neg as \<Rightarrow>
          (case class_escape c of
             Some i \<Rightarrow> Inr (st\<lparr>pmode := Class neg (AItem i # as)\<rparr>)
           | None \<Rightarrow>
               (case control_escape c of
                  Some x \<Rightarrow> Inr (st\<lparr>pmode := Class neg (AChar x # as)\<rparr>)
                | None \<Rightarrow>
                    if is_digit c \<or> c \<in> set ''bcxu'' then Inl Unmodelled
                    else Inr (st\<lparr>pmode := Class neg (AChar c # as)\<rparr>))))"

fun psteps :: "pstate \<Rightarrow> string \<Rightarrow> error + pstate" where
  "psteps st [] = Inr st"
| "psteps st (c # s) = (case pstep st c of Inl e \<Rightarrow> Inl e | Inr st' \<Rightarrow> psteps st' s)"

definition regexp_parse :: "string \<Rightarrow> error + regex" where
  "regexp_parse src =
     (case psteps \<lparr>pmode = Normal, cur = new_frame None, outer = [], ngroups = 0\<rparr> src of
        Inl e \<Rightarrow> Inl e
      | Inr st \<Rightarrow>
          if pmode st = Normal \<and> outer st = [] then Inr (frame_regex (cur st))
          else Inl SyntaxError)"

subsection \<open>The RegExp object\<close>

record regexp =
  tree :: regex
  ignoreCase :: bool

text \<open>\<^verbatim>\<open>new RegExp(source, flags)\<close> for the flags the router uses: none, or \<^verbatim>\<open>i\<close>.\<close>

definition RegExp :: "string \<Rightarrow> string \<Rightarrow> error + regexp" where
  "RegExp src flags =
     (if flags \<noteq> [] \<and> flags \<noteq> ''i'' then Inl Unmodelled
      else (case regexp_parse src of
              Inl e \<Rightarrow> Inl e
            | Inr r \<Rightarrow> Inr \<lparr>tree = r, ignoreCase = (flags = ''i'')\<rparr>))"

text \<open>\<open>match_at\<close> is one attempt at a start position; \<^verbatim>\<open>exec\<close> tries the start positions
  from the left. The result holds the whole match at index 0 and the captures after it.\<close>

definition match_at :: "regexp \<Rightarrow> nat \<Rightarrow> string \<Rightarrow> (string \<times> caps) option" where
  "match_at re n s =
     (case ms (ignoreCase re) n (tree re) s Map.empty of
        [] \<Rightarrow> None
      | (t, cs) # _ \<Rightarrow> Some (t, cs(0 \<mapsto> take (length s - length t) s)))"

fun exec_from :: "regexp \<Rightarrow> nat \<Rightarrow> string \<Rightarrow> caps option" where
  "exec_from re n s =
     (case match_at re n s of
        Some (t, cs) \<Rightarrow> Some cs
      | None \<Rightarrow> (case s of [] \<Rightarrow> None | c # s' \<Rightarrow> exec_from re n s'))"

definition exec :: "regexp \<Rightarrow> string \<Rightarrow> caps option" where
  "exec re s = exec_from re (length s) s"

text \<open>
  \<^verbatim>\<open>s.replace(re, f)\<close> for a regular expression with the \<^verbatim>\<open>g\<close> flag and a function
  \<open>f\<close>: every match, found from the left, is replaced by what \<open>f\<close> returns for its
  captures; the text between matches is kept. The function of the router updates the
  variables it closes over, so the model threads a state \<open>acc\<close> through the calls.
\<close>

function replace_global ::
  "regexp \<Rightarrow> (caps \<Rightarrow> 'a \<Rightarrow> string \<times> 'a) \<Rightarrow> nat \<Rightarrow> string \<Rightarrow> 'a \<Rightarrow> string \<times> 'a" where
  "replace_global re f n s acc =
     (case match_at re n s of
        Some (t, cs) \<Rightarrow>
          (case f cs acc of
             (out, acc') \<Rightarrow>
               if length t < length s then
                 (case replace_global re f n t acc' of (rest, acc'') \<Rightarrow> (out @ rest, acc''))
               else
                 (case s of
                    [] \<Rightarrow> (out, acc')
                  | c # s' \<Rightarrow>
                      (case replace_global re f n s' acc' of
                         (rest, acc'') \<Rightarrow> (out @ c # rest, acc''))))
      | None \<Rightarrow>
          (case s of
             [] \<Rightarrow> ([], acc)
           | c # s' \<Rightarrow>
               (case replace_global re f n s' acc of (rest, acc'') \<Rightarrow> (c # rest, acc''))))"
  by pat_completeness auto
termination
  by (relation "measure (\<lambda>(re, f, n, s, acc). length s)") auto

definition replace :: "string \<Rightarrow> regexp \<Rightarrow> (caps \<Rightarrow> 'a \<Rightarrow> string \<times> 'a) \<Rightarrow> 'a \<Rightarrow> string \<times> 'a" where
  "replace s re f acc = replace_global re f (length s) s acc"

section \<open>Objects as dictionaries\<close>

text \<open>
  An object is the list of its own properties in the order of their creation, with distinct
  keys. \<^verbatim>\<open>Object.keys\<close> lists the keys that are array indices first, in ascending order,
  and then the others in the order of their creation.
\<close>

type_synonym 'a object = "(string \<times> 'a) list"

definition is_index :: "string \<Rightarrow> bool" where
  "is_index k =
     (k \<noteq> [] \<and> list_all is_digit k \<and> (k = ''0'' \<or> hd k \<noteq> CHR ''0'') \<and>
      nat_of_digits k < 4294967295)"

definition Object_keys :: "'a object \<Rightarrow> string list" where
  "Object_keys ob =
     sort_key nat_of_digits (filter is_index (map fst ob)) @
     filter (\<lambda>k. \<not> is_index k) (map fst ob)"

text \<open>\<^verbatim>\<open>ob[k] = v\<close>: a new key goes to the end, an old one keeps its place.\<close>

fun put :: "string \<Rightarrow> 'a \<Rightarrow> 'a object \<Rightarrow> 'a object" where
  "put k v [] = [(k, v)]"
| "put k v ((k', v') # ob) = (if k = k' then (k, v) # ob else (k', v') # put k v ob)"

subsection \<open>What a plain object inherits\<close>

text \<open>
  The objects that the router creates with \<^verbatim>\<open>{}\<close>, and the plain objects it is given,
  inherit the members of \<^verbatim>\<open>Object.prototype\<close>. Those that the language defines are
  functions, listed here with their \<^verbatim>\<open>length\<close>, and the accessor \<^verbatim>\<open>__proto__\<close>,
  which reads as \<^verbatim>\<open>Object.prototype\<close> itself. (What other modules add to
  \<^verbatim>\<open>Object.prototype\<close> is not in the sources modelled here.) None of them is
  enumerable.
\<close>

definition Object_prototype :: "(string \<times> nat) list" where
  "Object_prototype =
     [(''constructor'', 1), (''hasOwnProperty'', 1), (''isPrototypeOf'', 1),
      (''propertyIsEnumerable'', 1), (''toLocaleString'', 0), (''toString'', 0),
      (''valueOf'', 0), (''__defineGetter__'', 2), (''__defineSetter__'', 2),
      (''__lookupGetter__'', 1), (''__lookupSetter__'', 1)]"

definition inherited :: "string \<Rightarrow> bool" where
  "inherited k = (k = ''__proto__'' \<or> k \<in> set (map fst Object_prototype))"

text \<open>What \<^verbatim>\<open>ob[k]\<close> reads: an own property, or a function of \<^verbatim>\<open>Object.prototype\<close>
  (of which the router can observe its \<^verbatim>\<open>length\<close> only), or \<^verbatim>\<open>Object.prototype\<close>, or
  nothing, which is \<^verbatim>\<open>undefined\<close>.\<close>

datatype 'a lookup = Missing | Held 'a | Builtin nat | Proto

definition get :: "(string \<rightharpoonup> 'a) \<Rightarrow> string \<Rightarrow> 'a lookup" where
  "get ob k =
     (case ob k of
        Some v \<Rightarrow> Held v
      | None \<Rightarrow>
          if k = ''__proto__'' then Proto
          else (case map_of Object_prototype k of Some n \<Rightarrow> Builtin n | None \<Rightarrow> Missing))"

text \<open>
  \<^verbatim>\<open>ob[k] = v\<close> on a plain object creates or updates an own property, except for the key
  \<^verbatim>\<open>__proto__\<close>: the accessor of \<^verbatim>\<open>Object.prototype\<close> ignores a value that is not an
  object, and for an object it replaces the prototype of \<^verbatim>\<open>ob\<close>; no own property is
  created. An object that inherits from an array is outside the model.
\<close>

definition store :: "string \<Rightarrow> jsval \<Rightarrow> (string \<rightharpoonup> jsval) \<Rightarrow> error + (string \<rightharpoonup> jsval)" where
  "store k v ob =
     (if k \<noteq> ''__proto__'' then Inr (ob(k \<mapsto> v))
      else (case v of Arr xs \<Rightarrow> Inl Unmodelled | _ \<Rightarrow> Inr ob))"

text \<open>The same assignment on the object \<^verbatim>\<open>terms\<close> of the constructor, whose values are
  the variables of a route: the prototype that the key \<^verbatim>\<open>__proto__\<close> replaces is not
  read afterwards.\<close>

definition assign :: "string \<Rightarrow> 'a \<Rightarrow> 'a object \<Rightarrow> 'a object" where
  "assign k v ob = (if k = ''__proto__'' then ob else put k v ob)"

section \<open>The pattern compiler\<close>

record variable =
  prefix :: string
  name :: string \<comment> \<open>the name, or the decimal text of the position: the property key\<close>
  numeric :: bool
  optional :: bool
  plural :: bool
  slash :: bool

datatype route_term =
    Literal string \<comment> \<open>\<^verbatim>\<open>{type: "literal", value: ...}\<close>\<close>
  | Variable variable \<comment> \<open>\<^verbatim>\<open>{type: "variable", ...}\<close>\<close>
  | PathTerm \<comment> \<open>\<^verbatim>\<open>{type: "path"}\<close>\<close>

definition bsl :: string where
  "bsl = [CHR 0x5C]"

text \<open>The source text of \<^verbatim>\<open>expression\<close>, the tokens of a pattern.\<close>

definition expression_source :: string where
  "expression_source =
     ''(/?)'' @
     ''(?:'' @
       '':'' @
       ''([:*+&])'' @
     ''|'' @
       ''('' @
         '':|'' @
         bsl @ ''*|'' @
         bsl @ ''+|'' @
         bsl @ ''.'' @ bsl @ ''.'' @ bsl @ ''.'' @
       '')'' @
       ''('' @ bsl @ ''w*)'' @
       ''([?&]|)'' @
     ''|'' @
       ''([-['' @ bsl @ '']{}()*+.'' @ bsl @ ''^$|,#'' @ bsl @ ''s])'' @
     ''|'' @
       ''([^/:*+.&]+)'' @
     '')''"

text \<open>A capture is a string or \<^verbatim>\<open>undefined\<close>.\<close>

definition truthy :: "string option \<Rightarrow> bool" where
  "truthy c = (case c of None \<Rightarrow> False | Some s \<Rightarrow> s \<noteq> [])"

definition text_of :: "string option \<Rightarrow> string" where
  "text_of c = (case c of None \<Rightarrow> ''undefined'' | Some s \<Rightarrow> s)"

definition or_empty :: "string option \<Rightarrow> string" where
  "or_empty c = (if truthy c then text_of c else [])"

record cstate =
  counter :: nat
  cvariables :: "variable list"
  cterms :: "route_term list"

text \<open>The function that \<^verbatim>\<open>compileRegExp\<close> passes to \<^verbatim>\<open>replace\<close>: for one token, the
  piece of regular expression, and the variable and terms pushed.\<close>

definition token :: "caps \<Rightarrow> cstate \<Rightarrow> string \<times> cstate" where
  "token m st =
     (let slash = m 1; escape = m 2; prefix = m 3; name = m 4; suffix = m 5;
          special = m 6; literal = m 7
      in if truthy prefix then
           (let variable =
                  \<lparr>prefix = text_of prefix,
                   name = (if truthy name then text_of name else string_of_nat (counter st)),
                   numeric = (prefix = Some ''+''),
                   optional = (suffix = Some ''?''),
                   plural = (suffix = Some ''&''),
                   slash = truthy slash\<rparr>;
                i' = (if truthy name then counter st else Suc (counter st));
                vs = cvariables st @ [variable]
            in if prefix = Some ''...'' then
                 (''('' @ (if truthy slash then ''/?'' else []) @ ''.*'' @ '')'',
                  \<lparr>counter = i', cvariables = vs, cterms = cterms st @ [Variable variable, PathTerm]\<rparr>)
               else if suffix = Some ''&'' then
                 (let term =
                        (if prefix = Some ''+'' then bsl @ ''d+''
                         else if prefix = Some ''*'' then ''[^&]*''
                         else ''[^/&]*'')
                  in (''(?:'' @ or_empty slash @ ''('' @
                        term @ ''(?:'' @ bsl @ ''&'' @ term @ '')*|'' @
                      '')'' @ '')?'',
                      \<lparr>counter = i', cvariables = vs, cterms = cterms st @ [Variable variable]\<rparr>))
               else
                 (''(?:'' @ or_empty slash @
                    (if prefix = Some ''+'' then ''('' @ bsl @ ''d+)''
                     else if prefix = Some ''*'' then ''(.*)''
                     else ''([^/]*)'') @
                  '')'' @ (if suffix = Some ''?'' then ''?'' else []),
                  \<lparr>counter = i', cvariables = vs, cterms = cterms st @ [Variable variable]\<rparr>))
         else if truthy escape then
           (text_of slash @ bsl @ text_of escape,
            st\<lparr>cterms := cterms st @ [Literal (text_of slash @ text_of escape)]\<rparr>)
         else if truthy literal then
           (text_of slash @ text_of literal,
            st\<lparr>cterms := cterms st @ [Literal (text_of slash @ text_of literal)]\<rparr>)
         else if truthy special then
           (text_of slash @ bsl @ text_of special,
            st\<lparr>cterms := cterms st @ [Literal (text_of slash @ text_of special)]\<rparr>)
         else
           (text_of slash @ text_of literal,
            st\<lparr>cterms := cterms st @ [Literal (text_of slash @ text_of literal)]\<rparr>))"

text \<open>\<^verbatim>\<open>compileRegExp(pattern, variables, terms, insensitive)\<close>: the regular expression,
  and the contents of the two arrays it fills.\<close>

definition compileRegExp ::
  "string \<Rightarrow> jsval \<Rightarrow> error + (regexp \<times> variable list \<times> route_term list)" where
  "compileRegExp pattern insensitive =
     (case RegExp expression_source [] of
        Inl e \<Rightarrow> Inl e
      | Inr expression \<Rightarrow>
          (case replace pattern expression token \<lparr>counter = 0, cvariables = [], cterms = []\<rparr> of
             (re, st) \<Rightarrow>
               (case RegExp (''^'' @ re @ ''$'') (if falsy insensitive then [] else ''i'') of
                  Inl e \<Rightarrow> Inl e
                | Inr rx \<Rightarrow> Inr (rx, cvariables st, cterms st))))"

section \<open>Routes\<close>

text \<open>
  The object that \<^verbatim>\<open>match\<close> returns and the state that \<^verbatim>\<open>stringify\<close> reads are
  plain objects. One record holds the properties that the router writes or reads; a property
  that an object does not have reads as \<^verbatim>\<open>undefined\<close>, and \<^verbatim>\<open>parameters\<close> is an object
  or \<^verbatim>\<open>null\<close>. \<^verbatim>\<open>match\<close> writes \<^verbatim>\<open>destination\<close>, \<^verbatim>\<open>parameters\<close> and
  \<^verbatim>\<open>path\<close>; \<^verbatim>\<open>stringify\<close> and \<^verbatim>\<open>observePath\<close> read \<^verbatim>\<open>destination\<close>,
  \<^verbatim>\<open>parameters\<close> and \<^verbatim>\<open>remainingPath\<close>.
\<close>

record state =
  destination :: string
  parameters :: "(string \<rightharpoonup> jsval) option"
  path :: jsval
  remainingPath :: jsval

text \<open>What \<^verbatim>\<open>compile\<close> returns: the two arrays, and the regular expression and the
  destination that the function \<^verbatim>\<open>match\<close> closes over.\<close>

record route =
  variables :: "variable list"
  terms :: "route_term list"
  regExp :: regexp
  route_destination :: string

text \<open>The loop of \<^verbatim>\<open>match\<close> over the variables; \<open>i\<close> is the index of the first one
  of \<open>vs\<close>, and the pair is \<^verbatim>\<open>parameters\<close> and \<^verbatim>\<open>remainingPath\<close>.\<close>

fun decode_all :: "string list \<Rightarrow> error + string list" where
  "decode_all [] = Inr []"
| "decode_all (x # xs) =
     (case decodeURIComponent x of
        Inl e \<Rightarrow> Inl e
      | Inr y \<Rightarrow> (case decode_all xs of Inl e \<Rightarrow> Inl e | Inr ys \<Rightarrow> Inr (y # ys)))"

fun bind_variables ::
  "variable list \<Rightarrow> nat \<Rightarrow> caps \<Rightarrow> (string \<rightharpoonup> jsval) \<times> jsval \<Rightarrow>
   error + ((string \<rightharpoonup> jsval) \<times> jsval)" where
  "bind_variables [] i m acc = Inr acc"
| "bind_variables (v # vs) i m (ps, rest) =
     (let variable = v; parameters = ps; remainingPath = rest;
          value = or_empty (m (i + 1))
      in if plural variable then
           (case (if value = [] then Inr []
                  else (case decode_all (split CHR ''&'' value) of
                          Inl e \<Rightarrow> Inl e
                        | Inr values \<Rightarrow>
                            Inr (if numeric variable then map parseInt values
                                 else map Str values))) of
              Inl e \<Rightarrow> Inl e
            | Inr values \<Rightarrow>
                (case store (name variable) (Arr values) parameters of
                   Inl e \<Rightarrow> Inl e
                 | Inr parameters' \<Rightarrow> bind_variables vs (i + 1) m (parameters', remainingPath)))
         else
           (let value' = (if numeric variable then parseInt value else Str value)
            in if prefix variable = ''...'' then
                 bind_variables vs (i + 1) m (parameters, value')
               else
                 (case store (name variable) value' parameters of
                    Inl e \<Rightarrow> Inl e
                  | Inr parameters' \<Rightarrow> bind_variables vs (i + 1) m (parameters', remainingPath))))"

definition match :: "route \<Rightarrow> string \<Rightarrow> error + state option" where
  "match r p =
     (case exec (regExp r) p of
        None \<Rightarrow> Inr None
      | Some m \<Rightarrow>
          (case bind_variables (variables r) 0 m (Map.empty, Undefined) of
             Inl e \<Rightarrow> Inl e
           | Inr (ps, rest) \<Rightarrow>
               Inr (Some \<lparr>destination = route_destination r, parameters = Some ps,
                          path = rest, remainingPath = Undefined\<rparr>)))"

text \<open>\<^verbatim>\<open>compile\<close> takes \<^verbatim>\<open>insensitive\<close> and calls
  \<^verbatim>\<open>compileRegExp(pattern, variables, terms)\<close>: the fourth argument of
  \<^verbatim>\<open>compileRegExp\<close> is not given, so it is \<^verbatim>\<open>undefined\<close> there.\<close>

definition compile :: "string \<Rightarrow> string \<Rightarrow> jsval \<Rightarrow> error + route" where
  "compile pattern d insensitive =
     (case compileRegExp pattern Undefined of
        Inl e \<Rightarrow> Inl e
      | Inr (re, vs, ts) \<Rightarrow>
          Inr \<lparr>variables = vs, terms = ts, regExp = re, route_destination = d\<rparr>)"

section \<open>The router\<close>

record router =
  table :: "route list"
  backTable :: "string \<rightharpoonup> route list"
  termsForDestination :: "string \<rightharpoonup> variable object"

text \<open>
  The body of the loop of the constructor once the route is compiled. For a destination
  that names a member of \<^verbatim>\<open>Object.prototype\<close>, \<^verbatim>\<open>backTable[destination]\<close> reads the
  inherited member, which is truthy and has no \<^verbatim>\<open>push\<close>: the call raises a
  \<^verbatim>\<open>TypeError\<close>.
\<close>

definition add_route :: "route \<Rightarrow> router \<Rightarrow> error + router" where
  "add_route route r =
     (let destination = route_destination route
      in case get (backTable r) destination of
           Builtin n \<Rightarrow> Inl TypeError
         | Proto \<Rightarrow> Inl TypeError
         | found \<Rightarrow>
             (let back = (case found of Held rs \<Rightarrow> rs | _ \<Rightarrow> []);
                  terms = (case get (termsForDestination r) destination of
                             Held ts \<Rightarrow> ts | _ \<Rightarrow> [])
              in Inr \<lparr>table = table r @ [route],
                      backTable = (backTable r)(destination \<mapsto> back @ [route]),
                      termsForDestination =
                        (termsForDestination r)
                          (destination \<mapsto>
                             foldl (\<lambda>ts term. assign (name term) term ts) terms
                               (variables route))\<rparr>))"

text \<open>The loop of the constructor over \<^verbatim>\<open>Object.keys(routes)\<close>.\<close>

fun add_patterns ::
  "string \<Rightarrow> string object \<Rightarrow> jsval \<Rightarrow> string list \<Rightarrow> router \<Rightarrow> error + router" where
  "add_patterns pre routes insensitive [] r = Inr r"
| "add_patterns pre routes insensitive (pattern # patterns) r =
     (case map_of routes pattern of
        None \<Rightarrow> Inl Unmodelled
      | Some d \<Rightarrow>
          (case compile (pre @ pattern) d insensitive of
             Inl e \<Rightarrow> Inl e
           | Inr route \<Rightarrow>
               (case add_route route r of
                  Inl e \<Rightarrow> Inl e
                | Inr r' \<Rightarrow> add_patterns pre routes insensitive patterns r')))"

definition Router :: "string \<Rightarrow> string object \<Rightarrow> jsval \<Rightarrow> error + router" where
  "Router pre routes insensitive =
     add_patterns pre routes insensitive (Object_keys routes)
       \<lparr>table = [], backTable = Map.empty, termsForDestination = Map.empty\<rparr>"

subsection \<open>parse\<close>

fun parse_table :: "route list \<Rightarrow> string \<Rightarrow> error + state option" where
  "parse_table [] p = Inr None"
| "parse_table (route # rest) p =
     (case match route p of
        Inl e \<Rightarrow> Inl e
      | Inr (Some m) \<Rightarrow> Inr (Some m)
      | Inr None \<Rightarrow> parse_table rest p)"

definition parse :: "router \<Rightarrow> string \<Rightarrow> error + state option" where
  "parse r p = parse_table (table r) p"

subsection \<open>stringify\<close>

text \<open>\<^verbatim>\<open>state.parameters[term.name]\<close> once \<^verbatim>\<open>state.parameters != null\<close> holds, for a
  plain object \<^verbatim>\<open>state.parameters\<close>; \<open>present\<close> is the test \<^verbatim>\<open>!= null\<close> on what was
  read, and \<open>text_of_value\<close> is \<^verbatim>\<open>"" + value\<close>. The text of a function of
  \<^verbatim>\<open>Object.prototype\<close> is left to the implementation, and so is not modelled.\<close>

definition parameter :: "state \<Rightarrow> string \<Rightarrow> jsval lookup" where
  "parameter st k = (case parameters st of None \<Rightarrow> Missing | Some ps \<Rightarrow> get ps k)"

definition present :: "jsval lookup \<Rightarrow> bool" where
  "present x =
     (case x of Missing \<Rightarrow> False | Held v \<Rightarrow> \<not> nullish v | Builtin n \<Rightarrow> True | Proto \<Rightarrow> True)"

definition text_of_value :: "jsval lookup \<Rightarrow> error + string" where
  "text_of_value x =
     (case x of
        Missing \<Rightarrow> Inr ''undefined''
      | Held v \<Rightarrow> Inr (ToString v)
      | Builtin n \<Rightarrow> Inl Unmodelled
      | Proto \<Rightarrow> Inr ''[object Object]'')"

text \<open>The body of the loop over the terms: what one term pushes on \<^verbatim>\<open>parts\<close>. A term
  of type \<^verbatim>\<open>"path"\<close> has no name, no \<^verbatim>\<open>slash\<close> and no \<^verbatim>\<open>plural\<close>: the key read
  is \<^verbatim>\<open>"undefined"\<close>.\<close>

definition term_parts :: "state \<Rightarrow> route_term \<Rightarrow> error + string list" where
  "term_parts st t =
     (case t of
        Literal v \<Rightarrow> Inr [v]
      | Variable v \<Rightarrow>
          (let term = v in
           if present (parameter st (name term)) then
             (case (if plural term then
                      (case parameter st (name term) of
                         Held (Arr xs) \<Rightarrow> Inr (join ''&'' (map encodeURIComponent xs))
                       | _ \<Rightarrow> Inl TypeError)
                    else text_of_value (parameter st (name term))) of
                Inl e \<Rightarrow> Inl e
              | Inr p \<Rightarrow> Inr ((if slash term then [''/''] else []) @ [p]))
           else if plural term \<and> slash term then Inr [''/'']
           else Inr [])
      | PathTerm \<Rightarrow>
          (if present (parameter st ''undefined'')
           then (case text_of_value (parameter st ''undefined'') of
                   Inl e \<Rightarrow> Inl e
                 | Inr p \<Rightarrow> Inr [p])
           else Inr []))"

fun all_parts :: "state \<Rightarrow> route_term list \<Rightarrow> error + string list" where
  "all_parts st [] = Inr []"
| "all_parts st (t # ts) =
     (case term_parts st t of
        Inl e \<Rightarrow> Inl e
      | Inr ps \<Rightarrow> (case all_parts st ts of Inl e \<Rightarrow> Inl e | Inr qs \<Rightarrow> Inr (ps @ qs)))"

text \<open>The body of the loop over the routes of the destination, which returns in its first
  round.\<close>

definition generate :: "route \<Rightarrow> state \<Rightarrow> error + jsval" where
  "generate route st =
     (case all_parts st (terms route) of
        Inl e \<Rightarrow> Inl e
      | Inr parts \<Rightarrow>
          Inr (Str (concat parts @
                    (if falsy (remainingPath st) then [] else ToString (remainingPath st)))))"

text \<open>
  \<^verbatim>\<open>stringify\<close>. For a destination that names a member of \<^verbatim>\<open>Object.prototype\<close>
  and has no route, \<^verbatim>\<open>table\<close> is that member and not an array: the loop starts at its
  \<^verbatim>\<open>length\<close> minus one. A function without formal parameters has the length 0 and
  \<^verbatim>\<open>Object.prototype\<close> has none, so the loop is not entered and the result is
  \<^verbatim>\<open>undefined\<close>; for a longer function \<^verbatim>\<open>table[i]\<close> is \<^verbatim>\<open>undefined\<close> and
  reading its \<^verbatim>\<open>terms\<close> raises a \<^verbatim>\<open>TypeError\<close>.
\<close>

definition stringify :: "router \<Rightarrow> state \<Rightarrow> error + jsval" where
  "stringify r st =
     (case get (backTable r) (destination st) of
        Missing \<Rightarrow> Inl (NoRoutes (destination st))
      | Held rs \<Rightarrow>
          (if rs = [] then Inr Undefined
           else generate (rs ! (length rs - 1)) st)
      | Builtin n \<Rightarrow> (if n = 0 then Inr Undefined else Inl TypeError)
      | Proto \<Rightarrow> Inr Undefined)"

subsection \<open>observePath\<close>





section \<open>The route table of the test suite\<close>

definition test_routes :: "string object" where
  "test_routes =
     [(''photos/+photoIds&'', ''photos''),
      (''photos.:format'', ''photo-format''),
      (''photo/+photoId'', ''photo''),
      (''photo/+photoId/comments/+commentId'', ''photo-comment''),
      (''notes/:noteId?'', ''notes''),
      (''notes/:noteId?/detail'', ''notes-detail''),
      (''a/:/b/:'', ''ab''),
      (''::'', ''colon'')]"

section \<open>Vocabulary of the properties\<close>

text \<open>The routes registered for a destination, in the order of their registration, and what
  the constructor maintains: \<^verbatim>\<open>backTable\<close> holds exactly these routes, and
  \<^verbatim>\<open>termsForDestination\<close> has an entry for exactly the same destinations.\<close>

definition routes_for :: "string \<Rightarrow> router \<Rightarrow> route list" where
  "routes_for d r = filter (\<lambda>x. route_destination x = d) (table r)"

definition back_ok :: "router \<Rightarrow> bool" where
  "back_ok r =
     (\<forall>d. backTable r d = (if routes_for d r = [] then None else Some (routes_for d r)) \<and>
          (termsForDestination r d = None) = (routes_for d r = []) \<and>
          (inherited d \<longrightarrow> routes_for d r = []))"

text \<open>The first element of a list of matches.\<close>

definition leads :: "'a list \<Rightarrow> 'a \<Rightarrow> bool" where
  "leads xs x = (case xs of [] \<Rightarrow> False | y # _ \<Rightarrow> y = x)"






subsection \<open>The compiled routes of the test suite\<close>

text \<open>The routes that \<^const>\<open>compile\<close> returns for the patterns of the test suite, written
  out; lemma \<open>compile_test\<close> below shows that they are what the compiler computes.\<close>

definition digits :: regex where
  "digits = Plus (Cls False [CDigit])"

definition segment :: regex where
  "segment = Star (Cls True [CChar CHR ''/''])"

definition var :: "string \<Rightarrow> string \<Rightarrow> string \<Rightarrow> bool \<Rightarrow> variable" where
  "var p k sfx sl =
     \<lparr>prefix = p, name = k, numeric = (p = ''+''), optional = (sfx = ''?''),
      plural = (sfx = ''&''), slash = sl\<rparr>"

definition anchored :: "regex list \<Rightarrow> regexp" where
  "anchored ps = \<lparr>tree = seq_of (Bol # ps @ [Eol]), ignoreCase = False\<rparr>"

definition photos_route :: route where
  "photos_route =
     \<lparr>variables = [var ''+'' ''photoIds'' ''&'' True],
      terms = [Literal ''/photos'', Variable (var ''+'' ''photoIds'' ''&'' True)],
      regExp = anchored (map Chr ''/photos'' @
        [Opt (Seq (Chr CHR ''/'')
           (Group 1 (Alt (Seq digits (Star (Seq (Chr CHR ''&'') digits))) Empty)))]),
      route_destination = ''photos''\<rparr>"

definition format_route :: route where
  "format_route =
     \<lparr>variables = [var '':'' ''format'' [] False],
      terms = [Literal ''/photos'', Literal ''.'', Variable (var '':'' ''format'' [] False)],
      regExp = anchored (map Chr ''/photos.'' @ [Group 1 segment]),
      route_destination = ''photo-format''\<rparr>"

definition photo_route :: route where
  "photo_route =
     \<lparr>variables = [var ''+'' ''photoId'' [] True],
      terms = [Literal ''/photo'', Variable (var ''+'' ''photoId'' [] True)],
      regExp = anchored (map Chr ''/photo'' @ [Seq (Chr CHR ''/'') (Group 1 digits)]),
      route_destination = ''photo''\<rparr>"

definition comment_route :: route where
  "comment_route =
     \<lparr>variables = [var ''+'' ''photoId'' [] True, var ''+'' ''commentId'' [] True],
      terms = [Literal ''/photo'', Variable (var ''+'' ''photoId'' [] True),
               Literal ''/comments'', Variable (var ''+'' ''commentId'' [] True)],
      regExp = anchored (map Chr ''/photo'' @ [Seq (Chr CHR ''/'') (Group 1 digits)] @
                         map Chr ''/comments'' @ [Seq (Chr CHR ''/'') (Group 2 digits)]),
      route_destination = ''photo-comment''\<rparr>"

definition notes_route :: route where
  "notes_route =
     \<lparr>variables = [var '':'' ''noteId'' ''?'' True],
      terms = [Literal ''/notes'', Variable (var '':'' ''noteId'' ''?'' True)],
      regExp = anchored (map Chr ''/notes'' @ [Opt (Seq (Chr CHR ''/'') (Group 1 segment))]),
      route_destination = ''notes''\<rparr>"

definition detail_route :: route where
  "detail_route =
     \<lparr>variables = [var '':'' ''noteId'' ''?'' True],
      terms = [Literal ''/notes'', Variable (var '':'' ''noteId'' ''?'' True), Literal ''/detail''],
      regExp = anchored (map Chr ''/notes'' @ [Opt (Seq (Chr CHR ''/'') (Group 1 segment))] @
                         map Chr ''/detail''),
      route_destination = ''notes-detail''\<rparr>"

definition ab_route :: route where
  "ab_route =
     \<lparr>variables = [var '':'' ''0'' [] True, var '':'' ''1'' [] True],
      terms = [Literal ''/a'', Variable (var '':'' ''0'' [] True),
               Literal ''/b'', Variable (var '':'' ''1'' [] True)],
      regExp = anchored (map Chr ''/a'' @ [Seq (Chr CHR ''/'') (Group 1 segment)] @
                         map Chr ''/b'' @ [Seq (Chr CHR ''/'') (Group 2 segment)]),
      route_destination = ''ab''\<rparr>"

definition colon_route :: route where
  "colon_route =
     \<lparr>variables = [], terms = [Literal ''/:''],
      regExp = anchored (map Chr ''/:''), route_destination = ''colon''\<rparr>"

definition test_table :: "route list" where
  "test_table = [photos_route, format_route, photo_route, comment_route, notes_route,
                 detail_route, ab_route, colon_route]"

subsection \<open>A table with a plural and a singular string variable\<close>

text \<open>The routes that \<^const>\<open>compile\<close> returns for the two patterns of \<open>tag_routes\<close>;
  lemma \<open>compile_tags\<close> below shows that they are what the compiler computes.\<close>

definition word :: regex where
  "word = Star (Cls True [CChar CHR ''/'', CChar CHR ''&''])"

definition tags_route :: route where
  "tags_route =
     \<lparr>variables = [var '':'' ''tags'' ''&'' True],
      terms = [Literal ''/tags'', Variable (var '':'' ''tags'' ''&'' True)],
      regExp = anchored (map Chr ''/tags'' @
        [Opt (Seq (Chr CHR ''/'')
           (Group 1 (Alt (Seq word (Star (Seq (Chr CHR ''&'') word))) Empty)))]),
      route_destination = ''tags''\<rparr>"

definition tag_route :: route where
  "tag_route =
     \<lparr>variables = [var '':'' ''tag'' [] True],
      terms = [Literal ''/tag'', Variable (var '':'' ''tag'' [] True)],
      regExp = anchored (map Chr ''/tag'' @ [Seq (Chr CHR ''/'') (Group 1 segment)]),
      route_destination = ''tag''\<rparr>"

definition tag_routes :: "string object" where
  "tag_routes = [(''tags/:tags&'', ''tags''), (''tag/:tag'', ''tag'')]"

text \<open>The numbers of the model stand for numbers of the language up to
  \<^verbatim>\<open>Number.MAX_SAFE_INTEGER\<close>.\<close>

definition MAX_SAFE_INTEGER :: nat where
  "MAX_SAFE_INTEGER = 9007199254740991"

section \<open>Numbers and their decimal text\<close>

declare string_of_nat.simps [simp del]
declare exec_from.simps [simp del]

lemma below_ten:
  "(m::nat) < 10 \<Longrightarrow>
   m = 0 \<or> m = 1 \<or> m = 2 \<or> m = 3 \<or> m = 4 \<or> m = 5 \<or> m = 6 \<or> m = 7 \<or> m = 8 \<or> m = 9"
  by arith

lemma is_digit_digit_char: "is_digit (digit_char d)"
proof -
  have "d mod 10 < 10" by simp
  from below_ten[OF this] show ?thesis
    by (auto simp: digit_char_def is_digit_def)
qed

lemma digit_val_digit_char: "d < 10 \<Longrightarrow> digit_val (digit_char d) = d"
  by (drule below_ten) (auto simp: digit_char_def digit_val_def char_code_def)

lemma string_of_nat_digits: "list_all is_digit (string_of_nat n)"
  by (induction n rule: string_of_nat.induct)
     (subst string_of_nat.simps, simp add: is_digit_digit_char)

lemma string_of_nat_nonempty: "string_of_nat n \<noteq> []"
  by (subst string_of_nat.simps) simp

lemma nat_of_digits_snoc: "nat_of_digits (ds @ [c]) = 10 * nat_of_digits ds + digit_val c"
  by (simp add: nat_of_digits_def)

lemma nat_of_digits_string_of_nat: "nat_of_digits (string_of_nat n) = n"
proof (induction n rule: string_of_nat.induct)
  case (1 n)
  show ?case
  proof (cases "n < 10")
    case True
    then show ?thesis
      by (subst string_of_nat.simps) (simp add: nat_of_digits_def digit_val_digit_char)
  next
    case False
    with 1 have "nat_of_digits (string_of_nat (n div 10)) = n div 10" by simp
    with False show ?thesis
      by (subst string_of_nat.simps) (simp add: nat_of_digits_snoc digit_val_digit_char)
  qed
qed

lemma is_digit_not_space: "is_digit c \<Longrightarrow> \<not> is_space c"
  by (auto simp: is_digit_def is_space_def char_code_def)

declare bits.simps [simp del]

lemma bits_le: "n < 2 ^ k \<Longrightarrow> bits n \<le> k"
proof (induction n arbitrary: k rule: bits.induct)
  case (1 n)
  show ?case
  proof (cases "n = 0")
    case True
    then show ?thesis by (subst bits.simps) simp
  next
    case False
    with 1(2) obtain j where k: "k = Suc j" by (cases k) auto
    with 1(2) have "n div 2 < 2 ^ j" by auto
    from 1(1)[OF False this] show ?thesis
      using False k by (subst bits.simps) simp
  qed
qed

lemma to_double_safe: "n \<le> MAX_SAFE_INTEGER \<Longrightarrow> to_double n = Some n"
proof -
  assume "n \<le> MAX_SAFE_INTEGER"
  then have n: "n < 2 ^ 53" by (simp add: MAX_SAFE_INTEGER_def)
  from bits_le[OF this] have e: "bits n - 53 = 0" by simp
  have "n < 2 ^ 1024"
    by (rule less_trans[OF n]) simp
  then show ?thesis by (simp add: to_double_def e)
qed


lemma parseInt_digits:
  assumes "ds \<noteq> []" "list_all is_digit ds" "nat_of_digits ds \<le> MAX_SAFE_INTEGER"
  shows "parseInt ds = Num (int (nat_of_digits ds))"
proof -
  obtain c r where ds: "ds = c # r" using assms(1) by (cases ds) auto
  with assms(2) have c: "is_digit c" by simp
  then have ns: "\<not> is_space c" by (rule is_digit_not_space)
  from c have sign: "c \<noteq> CHR ''-''" "c \<noteq> CHR ''+''" by (auto simp: is_digit_def)
  have tw: "takeWhile is_digit ds = ds" using assms(2) by (simp add: list_all_iff)
  show ?thesis
    using ns sign tw assms(1) to_double_safe[OF assms(3)] unfolding parseInt_def ds
    by (simp add: Let_def)
qed

lemma parseInt_string_of_nat:
  "n \<le> MAX_SAFE_INTEGER \<Longrightarrow> parseInt (string_of_nat n) = Num (int n)"
  by (simp add: parseInt_digits string_of_nat_nonempty string_of_nat_digits
      nat_of_digits_string_of_nat)

lemma parseInt_empty: "parseInt [] = NaN"
  by (simp add: parseInt_def)

section \<open>The matcher on runs of digits\<close>

lemma leads_Cons [simp]: "leads (y # ys) x = (y = x)"
  by (simp add: leads_def)

lemma leads_Nil [simp]: "\<not> leads [] x"
  by (simp add: leads_def)

lemma leads_append: "leads xs x \<Longrightarrow> leads (xs @ ys) x"
  by (cases xs) auto

lemma leads_concat_map: "leads xs x \<Longrightarrow> leads (f x) y \<Longrightarrow> leads (concat (map f xs)) y"
  by (cases xs) (auto intro: leads_append)

lemma leads_map: "leads xs x \<Longrightarrow> leads (map f xs) (f x)"
  by (cases xs) auto

lemma suffixes_leads: "leads (suffixes ds) []"
  by (induction ds) (auto intro: leads_append)

lemma reset_nogroups: "groups a = [] \<Longrightarrow> reset a cs = cs"
  by (simp add: reset_def)

lemma ms_digit_Cons:
  "ms False n (Cls False [CDigit]) (c # s) cs = (if is_digit c then [(s, cs)] else [])"
  by (simp add: class_has_def)

lemma ms_digit_stop:
  "rest = [] \<or> \<not> is_digit (hd rest) \<Longrightarrow> ms False n (Cls False [CDigit]) rest cs = []"
  by (cases rest) (auto simp: class_has_def)

lemma ms_Star_digits:
  assumes "list_all is_digit ds" and "rest = [] \<or> \<not> is_digit (hd rest)"
  shows "ms False n (Star (Cls False [CDigit])) (ds @ rest) cs =
         map (\<lambda>t. (t @ rest, cs)) (suffixes ds)"
  using assms(1)
proof (induction ds)
  case Nil
  show ?case using ms_digit_stop[OF assms(2)] by (simp add: reset_nogroups)
next
  case (Cons d ds)
  then have d: "is_digit d" and IH: "ms False n (Star (Cls False [CDigit])) (ds @ rest) cs =
         map (\<lambda>t. (t @ rest, cs)) (suffixes ds)" by simp_all
  show ?case
    by (subst ms.simps) (simp add: reset_nogroups ms_digit_Cons d IH del: ms.simps)
qed

lemma ms_Plus_digits:
  assumes "is_digit d" "list_all is_digit ds" and "rest = [] \<or> \<not> is_digit (hd rest)"
  shows "ms False n (Plus (Cls False [CDigit])) (d # ds @ rest) cs =
         map (\<lambda>t. (t @ rest, cs)) (suffixes ds)"
  by (subst ms.simps)
     (simp add: reset_nogroups ms_digit_Cons assms(1) ms_Star_digits[OF assms(2,3)] del: ms.simps)

lemma anchored_later:
  "tree re = Seq Bol X \<Longrightarrow> length s < n \<Longrightarrow> exec_from re n s = None"
proof (induction s)
  case Nil
  then show ?case by (subst exec_from.simps) (simp add: match_at_def)
next
  case (Cons c s)
  then show ?case by (subst exec_from.simps) (simp add: match_at_def)
qed

lemma exec_anchored:
  "tree re = Seq Bol X \<Longrightarrow> exec re p = map_option snd (match_at re (length p) p)"
  unfolding exec_def
  by (subst exec_from.simps) (auto split: option.splits list.splits simp: anchored_later)

lemma match_at_leads:
  "leads (ms (ignoreCase re) n (tree re) s Map.empty) (t, cs) \<Longrightarrow>
   match_at re n s = Some (t, cs(0 \<mapsto> take (length s - length t) s))"
  by (auto simp: match_at_def leads_def split: list.splits)


section \<open>The tables of the router\<close>

lemma back_ok_empty:
  "back_ok \<lparr>table = [], backTable = Map.empty, termsForDestination = Map.empty\<rparr>"
  by (simp add: back_ok_def routes_for_def)

lemma inherited_iff: "inherited k = (k = ''__proto__'' \<or> map_of Object_prototype k \<noteq> None)"
  by (simp add: inherited_def map_of_eq_None_iff)

lemma get_own: "ob k = Some v \<Longrightarrow> get ob k = Held v"
  by (simp add: get_def)

lemma get_plain: "\<not> inherited k \<Longrightarrow> get ob k = (case ob k of None \<Rightarrow> Missing | Some v \<Rightarrow> Held v)"
  by (auto simp: get_def inherited_iff split: option.splits)

lemma get_inherited:
  "ob k = None \<Longrightarrow> inherited k \<Longrightarrow>
   get ob k = (if k = ''__proto__'' then Proto else Builtin (the (map_of Object_prototype k)))"
  by (auto simp: get_def inherited_iff)


lemma add_route_plain:
  assumes "back_ok r" and "add_route x r = Inr r'"
  shows "\<not> inherited (route_destination x)"
proof
  assume i: "inherited (route_destination x)"
  with assms(1) have "backTable r (route_destination x) = None"
    by (simp add: back_ok_def)
  from get_inherited[of "backTable r", OF this i] assms(2) show False
    by (auto simp: add_route_def Let_def split: if_splits)
qed

lemma add_route_value:
  assumes "\<not> inherited (route_destination x)"
  shows "add_route x r =
     Inr \<lparr>table = table r @ [x],
          backTable = (backTable r)(route_destination x \<mapsto>
            (case backTable r (route_destination x) of None \<Rightarrow> [] | Some rs \<Rightarrow> rs) @ [x]),
          termsForDestination = (termsForDestination r)(route_destination x \<mapsto>
            foldl (\<lambda>ts term. assign (name term) term ts)
              (case termsForDestination r (route_destination x) of None \<Rightarrow> [] | Some ts \<Rightarrow> ts)
              (variables x))\<rparr>"
  by (simp add: add_route_def Let_def get_plain[OF assms] split: option.splits)

lemma back_ok_add_route:
  assumes "back_ok r" and "add_route x r = Inr r'"
  shows "back_ok r'"
proof -
  note plain = add_route_plain[OF assms]
  from assms(2) have r': "r' = \<lparr>table = table r @ [x],
          backTable = (backTable r)(route_destination x \<mapsto>
            (case backTable r (route_destination x) of None \<Rightarrow> [] | Some rs \<Rightarrow> rs) @ [x]),
          termsForDestination = (termsForDestination r)(route_destination x \<mapsto>
            foldl (\<lambda>ts term. assign (name term) term ts)
              (case termsForDestination r (route_destination x) of None \<Rightarrow> [] | Some ts \<Rightarrow> ts)
              (variables x))\<rparr>"
    by (simp add: add_route_value[OF plain])
  show ?thesis
    unfolding r' using assms(1) plain
    by (auto simp: back_ok_def routes_for_def split: option.splits if_splits)
qed

lemma back_ok_add_patterns:
  "add_patterns pre routes ins ks r0 = Inr r \<Longrightarrow> back_ok r0 \<Longrightarrow> back_ok r"
proof (induction ks arbitrary: r0)
  case Nil
  then show ?case by simp
next
  case (Cons k ks)
  then show ?case
    by (auto split: option.splits sum.splits dest: back_ok_add_route)
qed

lemma back_ok_Router: "Router pre routes ins = Inr r \<Longrightarrow> back_ok r"
  unfolding Router_def by (erule back_ok_add_patterns) (rule back_ok_empty)





lemmas param_simps =
  parameter_def get_def present_def text_of_value_def Object_prototype_def

lemma stringify_registered:
  "back_ok r \<Longrightarrow> routes_for (destination st) r \<noteq> [] \<Longrightarrow>
   stringify r st = generate (last (routes_for (destination st) r)) st"
  by (simp add: stringify_def back_ok_def get_own last_conv_nth)



section \<open>The router of the test suite\<close>

lemma compile_test:
  "map (\<lambda>(k, d). compile (''/'' @ k) d ins) test_routes = map Inr test_table"
  by code_simp

lemma keys_test: "Object_keys test_routes = map fst test_routes"
  by code_simp

lemma plain_test:
  "\<not> inherited ''photos''" "\<not> inherited ''photo-format''" "\<not> inherited ''photo''"
  "\<not> inherited ''photo-comment''" "\<not> inherited ''notes''" "\<not> inherited ''notes-detail''"
  "\<not> inherited ''ab''" "\<not> inherited ''colon''"
  by (simp_all add: inherited_def Object_prototype_def)

lemma test_destinations:
  "map route_destination test_table =
     [''photos'', ''photo-format'', ''photo'', ''photo-comment'', ''notes'', ''notes-detail'',
      ''ab'', ''colon'']"
  by (simp add: test_table_def photos_route_def format_route_def photo_route_def
      comment_route_def notes_route_def detail_route_def ab_route_def colon_route_def)

lemma add_route_ex:
  "\<not> inherited (route_destination x) \<Longrightarrow> \<exists>r'. add_route x r = Inr r' \<and> table r' = table r @ [x]"
  by (simp add: add_route_value)

lemma add_all_ex:
  "\<forall>x\<in>set xs. \<not> inherited (route_destination x) \<Longrightarrow>
   list_all2 (\<lambda>k x. \<exists>d. map_of routes k = Some d \<and> compile (pre @ k) d ins = Inr x) ks xs \<Longrightarrow>
   \<exists>r. add_patterns pre routes ins ks r0 = Inr r \<and> table r = table r0 @ xs"
proof (induction ks arbitrary: xs r0)
  case Nil
  then show ?case by simp
next
  case (Cons k ks)
  from Cons.prems(2) obtain x ys d where xs: "xs = x # ys"
    and d: "map_of routes k = Some d" and x: "compile (pre @ k) d ins = Inr x"
    and ys: "list_all2 (\<lambda>k x. \<exists>d. map_of routes k = Some d \<and> compile (pre @ k) d ins = Inr x) ks ys"
    by (auto simp: list_all2_Cons1)
  from Cons.prems(1) xs obtain r1 where r1: "add_route x r0 = Inr r1"
    and t1: "table r1 = table r0 @ [x]"
    using add_route_ex[of x r0] by auto
  from Cons.IH[OF _ ys, of r1] Cons.prems(1) xs obtain r where
    "add_patterns pre routes ins ks r1 = Inr r" "table r = table r1 @ ys"
    by auto
  with d x r1 t1 xs show ?case by simp
qed

lemma Router_test_table:
  "\<exists>r. Router ''/'' test_routes ins = Inr r \<and> table r = test_table"
proof -
  have plain: "\<forall>x\<in>set test_table. \<not> inherited (route_destination x)"
    using test_destinations plain_test
    by (simp add: test_table_def)
  have all: "list_all2 (\<lambda>k x. \<exists>d. map_of test_routes k = Some d \<and> compile (''/'' @ k) d ins = Inr x)
               (map fst test_routes) test_table"
    using compile_test[of ins]
    by (simp add: test_routes_def test_table_def)
  from add_all_ex[OF plain all,
      of "\<lparr>table = [], backTable = Map.empty, termsForDestination = Map.empty\<rparr>"]
  show ?thesis
    by (simp add: Router_def keys_test)
qed

section \<open>Matching the compiled routes\<close>

declare ms.simps [simp del]

lemma ms_Seq_Chr:
  "ms ic n (Seq (Chr c) R) s cs =
     (case s of [] \<Rightarrow> [] | x # t \<Rightarrow> if char_eq ic c x then ms ic n R t cs else [])"
  by (cases s) (simp_all add: ms.simps)

lemma ms_Seq_Bol: "ms ic n (Seq Bol R) s cs = (if length s = n then ms ic n R s cs else [])"
  by (simp add: ms.simps)

lemma ms_Eol: "ms ic n Eol s cs = (if s = [] then [(s, cs)] else [])"
  by (simp add: ms.simps)

lemma leads_filter: "leads xs x \<Longrightarrow> P x \<Longrightarrow> leads (filter P xs) x"
  by (cases xs) auto

lemma digits_split:
  "string_of_nat k = hd (string_of_nat k) # tl (string_of_nat k) \<and>
   is_digit (hd (string_of_nat k)) \<and> list_all is_digit (tl (string_of_nat k))"
  using string_of_nat_nonempty[of k] string_of_nat_digits[of k]
  by (cases "string_of_nat k") auto

lemma ms_digits:
  assumes "rest = [] \<or> \<not> is_digit (hd rest)"
  shows "ms False n digits (string_of_nat k @ rest) cs =
         map (\<lambda>t. (t @ rest, cs)) (suffixes (tl (string_of_nat k)))"
proof -
  from digits_split[of k] obtain d ds where
    s: "string_of_nat k = d # ds" and d: "is_digit d" and ds: "list_all is_digit ds"
    by metis
  show ?thesis
    unfolding digits_def s using ms_Plus_digits[OF d ds assms] by simp
qed

lemma ms_digits_leads:
  assumes "rest = [] \<or> \<not> is_digit (hd rest)"
  shows "leads (ms False n digits (string_of_nat k @ rest) cs) (rest, cs)"
  unfolding ms_digits[OF assms]
  using leads_map[OF suffixes_leads, of "\<lambda>t. (t @ rest, cs)"] by simp



lemma ms_Seq_leads:
  "leads (ms ic n a s cs) (t, cs') \<Longrightarrow> leads (ms ic n b t cs') x \<Longrightarrow>
   leads (ms ic n (Seq a b) s cs) x"
  by (simp add: ms.simps) (erule leads_concat_map, simp)


lemma seq_of_Cons: "rs \<noteq> [] \<Longrightarrow> seq_of (r # rs) = Seq r (seq_of rs)"
  by (cases rs) auto

lemma exec_anchored_leads:
  assumes "leads (ms False (length p) (seq_of (Bol # ps @ [Eol])) p Map.empty) (t, cs)"
  shows "exec (anchored ps) p = Some (cs(0 \<mapsto> take (length p - length t) p))"
proof -
  have tr: "tree (anchored ps) = Seq Bol (seq_of (ps @ [Eol]))"
    by (simp add: anchored_def seq_of_Cons)
  have "match_at (anchored ps) (length p) p = Some (t, cs(0 \<mapsto> take (length p - length t) p))"
    using assms by (intro match_at_leads) (simp add: anchored_def)
  then show ?thesis by (simp add: exec_anchored[OF tr])
qed


lemmas lit_simps = ms_Seq_Chr ms_Seq_Bol ms_Eol char_eq_def





lemma slash_not_digit: "\<not> is_digit CHR ''/''" "\<not> is_digit CHR ''&''"
  by (simp_all add: is_digit_def)



lemma join_amp:
  "join ''&'' (string_of_nat k # map string_of_nat ks) =
     string_of_nat k @ concat (map (\<lambda>j. CHR ''&'' # string_of_nat j) ks)"
  by (induction ks arbitrary: k) simp_all

lemma amp_stop:
  "concat (map (\<lambda>j. CHR ''&'' # string_of_nat j) ks) = [] \<or>
   \<not> is_digit (hd (concat (map (\<lambda>j. CHR ''&'' # string_of_nat j) ks)))"
  by (cases ks) (simp_all add: slash_not_digit)

lemma star_amp_leads:
  "leads (ms False n (Star (Seq (Chr CHR ''&'') digits))
            (concat (map (\<lambda>j. CHR ''&'' # string_of_nat j) ks)) cs) ([], cs)"
proof (induction ks)
  case Nil
  show ?case by (simp add: ms.simps(9) ms_Seq_Chr)
next
  case (Cons k ks)
  let ?rest = "concat (map (\<lambda>j. CHR ''&'' # string_of_nat j) ks)"
  have g: "reset (Seq (Chr CHR ''&'') digits) cs = cs"
    by (simp add: reset_nogroups digits_def)
  have one: "leads (ms False n (Seq (Chr CHR ''&'') digits) (CHR ''&'' # string_of_nat k @ ?rest) cs)
               (?rest, cs)"
    using ms_digits_leads[OF amp_stop, of n k ks cs] by (simp add: ms_Seq_Chr char_eq_def)
  show ?case
    apply (subst ms.simps(9))
    apply (simp add: g)
    apply (rule leads_append)
    apply (rule leads_concat_map[OF one])
    apply (simp add: Cons.IH)
    done
qed

lemma split_plain: "sep \<notin> set x \<Longrightarrow> split sep x = [x]"
  by (induction x) auto

lemma split_append: "sep \<notin> set x \<Longrightarrow> split sep (x @ sep # y) = x # split sep y"
  by (induction x) auto

lemma split_join_digits:
  "split CHR ''&'' (join ''&'' (string_of_nat k # map string_of_nat ks)) =
     string_of_nat k # map string_of_nat ks"
proof (induction ks arbitrary: k)
  case Nil
  have "CHR ''&'' \<notin> set (string_of_nat k)"
    using string_of_nat_digits[of k] slash_not_digit by (auto simp: list_all_iff)
  then show ?case by (simp add: split_plain)
next
  case (Cons j ks)
  have "CHR ''&'' \<notin> set (string_of_nat k)"
    using string_of_nat_digits[of k] slash_not_digit by (auto simp: list_all_iff)
  then show ?case using Cons.IH[of j] by (simp add: split_append)
qed

lemma unescape_plain: "CHR ''%'' \<notin> set s \<Longrightarrow> unescape s = Inr (map Raw s)"
  by (induction s) auto

lemma utf8_raw: "utf8 (map Raw s) = Inr s"
  by (induction s) auto

lemma decode_plain: "CHR ''%'' \<notin> set s \<Longrightarrow> decodeURIComponent s = Inr s"
  by (simp add: decodeURIComponent_def unescape_plain utf8_raw)

lemma decode_digits: "decodeURIComponent (string_of_nat k) = Inr (string_of_nat k)"
proof -
  have "\<not> is_digit CHR ''%''" by (simp add: is_digit_def)
  then have "CHR ''%'' \<notin> set (string_of_nat k)"
    using string_of_nat_digits[of k] by (auto simp: list_all_iff)
  then show ?thesis by (rule decode_plain)
qed

lemma decode_all_digits: "decode_all (map string_of_nat ks) = Inr (map string_of_nat ks)"
  by (induction ks) (simp_all add: decode_digits)

lemma ms_Group_leads:
  "leads (ms ic n a s cs) (t, cs') \<Longrightarrow>
   leads (ms ic n (Group i a) s cs) (t, cs'(i \<mapsto> take (length s - length t) s))"
  by (cases "ms ic n a s cs") (auto simp: ms.simps)

lemma ms_Alt_leads: "leads (ms ic n a s cs) x \<Longrightarrow> leads (ms ic n (Alt a b) s cs) x"
  by (simp add: ms.simps leads_append)

lemma ms_Opt_leads:
  "leads (ms ic n a s (reset a cs)) (t, cs') \<Longrightarrow> length t < length s \<Longrightarrow>
   leads (ms ic n (Opt a) s cs) (t, cs')"
  by (simp add: ms.simps) (rule leads_append, erule leads_filter, simp)

lemma photos_tail:
  fixes k ks
  defines "body \<equiv> string_of_nat k @ concat (map (\<lambda>j. CHR ''&'' # string_of_nat j) ks)"
  shows "leads (ms False n
           (Seq (Opt (Seq (Chr CHR ''/'')
              (Group 1 (Alt (Seq digits (Star (Seq (Chr CHR ''&'') digits))) Empty)))) Eol)
           (CHR ''/'' # body) Map.empty)
         ([], [1 \<mapsto> body])"
proof -
  have a: "leads (ms False n (Seq digits (Star (Seq (Chr CHR ''&'') digits))) body Map.empty)
             ([], Map.empty)"
    unfolding body_def by (rule ms_Seq_leads[OF ms_digits_leads[OF amp_stop] star_amp_leads])
  have c: "leads (ms False n (Group 1 (Alt (Seq digits (Star (Seq (Chr CHR ''&'') digits))) Empty))
                    body Map.empty)
             ([], [1 \<mapsto> body])"
    using ms_Group_leads[OF ms_Alt_leads[OF a], of 1 Empty] by simp
  have e: "reset (Seq (Chr CHR ''/'')
             (Group 1 (Alt (Seq digits (Star (Seq (Chr CHR ''&'') digits))) Empty))) Map.empty
           = Map.empty"
    by (simp add: reset_def)
  have "leads (ms False n
           (Opt (Seq (Chr CHR ''/'')
              (Group 1 (Alt (Seq digits (Star (Seq (Chr CHR ''&'') digits))) Empty))))
           (CHR ''/'' # body) Map.empty)
         ([], [1 \<mapsto> body])"
  proof (rule ms_Opt_leads)
    show "leads (ms False n
             (Seq (Chr CHR ''/'')
                (Group 1 (Alt (Seq digits (Star (Seq (Chr CHR ''&'') digits))) Empty)))
             (CHR ''/'' # body)
             (reset (Seq (Chr CHR ''/'')
                (Group 1 (Alt (Seq digits (Star (Seq (Chr CHR ''&'') digits))) Empty))) Map.empty))
           ([], [1 \<mapsto> body])"
      unfolding e using c by (simp add: ms_Seq_Chr char_eq_def)
    show "length ([]::string) < length (CHR ''/'' # body)" by simp
  qed
  then show ?thesis
    by (rule ms_Seq_leads) (simp add: ms_Eol)
qed

lemma parseInt_all:
  "\<forall>k\<in>set ks. k \<le> MAX_SAFE_INTEGER \<Longrightarrow>
   map parseInt (map string_of_nat ks) = map (\<lambda>k. Num (int k)) ks"
  by (induction ks) (simp_all add: parseInt_string_of_nat)

lemma match_photos:
  assumes "\<forall>k\<in>set ks. k \<le> MAX_SAFE_INTEGER"
  shows "match photos_route (''/photos/'' @ join ''&'' (map string_of_nat ks)) =
     Inr (Some \<lparr>destination = ''photos'',
                parameters = Some [''photoIds'' \<mapsto> Arr (map (\<lambda>k. Num (int k)) ks)],
                path = Undefined, remainingPath = Undefined\<rparr>)"
proof (cases ks)
  case Nil
  show ?thesis unfolding Nil
    by (simp add: match_def photos_route_def anchored_def exec_def exec_from.simps match_at_def
        ms.simps digits_def char_eq_def reset_def var_def or_empty_def truthy_def text_of_def
        store_def)
next
  case (Cons k ks')
  let ?body = "join ''&'' (string_of_nat k # map string_of_nat ks')"
  let ?p = "''/photos/'' @ ?body"
  have body: "?body \<noteq> []"
    unfolding join_amp by (simp add: string_of_nat_nonempty)
  have "leads (ms False (length ?p)
           (seq_of (Bol # (map Chr ''/photos'' @
              [Opt (Seq (Chr CHR ''/'')
                 (Group 1 (Alt (Seq digits (Star (Seq (Chr CHR ''&'') digits))) Empty)))]) @ [Eol]))
           ?p Map.empty)
         ([], [1 \<mapsto> ?body])"
    unfolding join_amp
    using photos_tail[of "length (''/photos/'' @ string_of_nat k @
        concat (map (\<lambda>j. CHR ''&'' # string_of_nat j) ks'))" k ks']
    by (simp add: lit_simps)
  note ex = exec_anchored_leads[OF this]
  from assms Cons have pk: "parseInt (string_of_nat k) = Num (int k)"
    and pks: "map (\<lambda>x. parseInt (string_of_nat x)) ks' = map (\<lambda>k. Num (int k)) ks'"
    by (simp_all add: parseInt_string_of_nat)
  from ex
  show ?thesis
    unfolding Cons
    using body
    by (simp add: match_def photos_route_def var_def or_empty_def truthy_def text_of_def
        split_join_digits decode_all_digits decode_digits Let_def store_def comp_def pk pks
        del: join.simps)
qed

lemmas eval_simps =
  match_def anchored_def exec_def exec_from.simps match_at_def ms.simps digits_def segment_def
  char_eq_def class_has_def reset_def var_def or_empty_def truthy_def text_of_def Let_def
  is_digit_def parseInt_def nat_of_digits_def digit_val_def char_code_def is_space_def
  decodeURIComponent_def hex_val_def store_def to_double_safe MAX_SAFE_INTEGER_def

lemma photos_short:
  "match photos_route ''/photos'' =
     Inr (Some \<lparr>destination = ''photos'', parameters = Some [''photoIds'' \<mapsto> Arr []],
                path = Undefined, remainingPath = Undefined\<rparr>)"
  by (simp add: photos_route_def eval_simps)

lemma photos_three:
  "match photos_route ''/photos/10&20&30'' =
     Inr (Some \<lparr>destination = ''photos'',
                parameters = Some [''photoIds'' \<mapsto> Arr [Num 10, Num 20, Num 30]],
                path = Undefined, remainingPath = Undefined\<rparr>)"
  by (simp add: photos_route_def eval_simps)

section \<open>What stops stringify\<close>













section \<open>Routers of one route\<close>

lemma sum_case_ex: "(case x of Inl e \<Rightarrow> False | Inr r \<Rightarrow> P r) \<Longrightarrow> \<exists>r. x = Inr r \<and> P r"
  by (cases x) auto

lemma Object_keys_single: "Object_keys [(k, d)] = [k]"
  by (simp add: Object_keys_def)

lemma Router_single:
  "compile (pre @ k) d ins = Inr x \<Longrightarrow>
   Router pre [(k, d)] ins =
     add_route x \<lparr>table = [], backTable = Map.empty, termsForDestination = Map.empty\<rparr>"
  by (simp add: Router_def Object_keys_single split: sum.splits)

lemma compile_files:
  "compile ''/files/...'' ''files'' ins =
     Inr \<lparr>variables = [var ''...'' ''0'' [] True],
          terms = [Literal ''/files'', Variable (var ''...'' ''0'' [] True), PathTerm],
          regExp = anchored (map Chr ''/files'' @ [Group 1 (Seq (Opt (Chr CHR ''/'')) (Star Dot))]),
          route_destination = ''files''\<rparr>"
  by code_simp

lemma compile_destination: "compile p d ins = Inr x \<Longrightarrow> route_destination x = d"
  by (auto simp: compile_def split: sum.splits)

lemma Router_one:
  assumes "compile (pre @ k) d ins = Inr x" and "\<not> inherited d"
  shows "\<exists>r. Router pre [(k, d)] ins = Inr r \<and> table r = [x]"
proof -
  from compile_destination[OF assms(1)] assms(2) have "\<not> inherited (route_destination x)" by simp
  from add_route_ex[OF this, of "\<lparr>table = [], backTable = Map.empty, termsForDestination = Map.empty\<rparr>"]
  show ?thesis using Router_single[OF assms(1)] by simp
qed

lemma parse_one: "table r = [x] \<Longrightarrow> parse r p = match x p"
  by (cases "match x p") (auto simp: parse_def split: option.splits)

lemma compile_twice:
  "compile ''/a/:x?/b/:x'' ''d'' ins =
     Inr \<lparr>variables = [var '':'' ''x'' ''?'' True, var '':'' ''x'' [] True],
          terms = [Literal ''/a'', Variable (var '':'' ''x'' ''?'' True),
                   Literal ''/b'', Variable (var '':'' ''x'' [] True)],
          regExp = anchored (map Chr ''/a'' @ [Opt (Seq (Chr CHR ''/'') (Group 1 segment))] @
                             map Chr ''/b'' @ [Seq (Chr CHR ''/'') (Group 2 segment)]),
          route_destination = ''d''\<rparr>"
  by code_simp

lemma compile_parenthesis:
  "compile ''/a(b)/:id?'' ''d'' ins =
     Inr \<lparr>variables = [var '':'' ''id'' ''?'' True],
          terms = [Literal ''/a(b)'', Variable (var '':'' ''id'' ''?'' True)],
          regExp = anchored (map Chr ''/a'' @
                     [Group 1 (Chr CHR ''b''), Opt (Seq (Chr CHR ''/'') (Group 2 segment))]),
          route_destination = ''d''\<rparr>"
  by code_simp

lemma compile_proto:
  "compile ''/a/:__proto__?'' ''d'' ins =
     Inr \<lparr>variables = [var '':'' ''__proto__'' ''?'' True],
          terms = [Literal ''/a'', Variable (var '':'' ''__proto__'' ''?'' True)],
          regExp = anchored (map Chr ''/a'' @ [Opt (Seq (Chr CHR ''/'') (Group 1 segment))]),
          route_destination = ''d''\<rparr>"
  by code_simp

lemma plain_d: "\<not> inherited ''d''" "\<not> inherited ''n''"
  by (simp_all add: inherited_def Object_prototype_def)

section \<open>What the loop of match binds\<close>

lemma store_dom: "store k v ps = Inr ps' \<Longrightarrow> dom ps \<subseteq> dom ps'"
  by (auto simp: store_def split: if_splits jsval.splits)

lemma store_other: "store k v ps = Inr ps' \<Longrightarrow> k \<noteq> k' \<Longrightarrow> ps' k' = ps k'"
  by (auto simp: store_def split: if_splits jsval.splits)

lemma store_plain: "k \<noteq> ''__proto__'' \<Longrightarrow> store k v ps = Inr (ps(k \<mapsto> v))"
  by (simp add: store_def)

lemma bind_variables_step:
  assumes "bind_variables (v # vs) i m (ps, rest) = Inr (ps', rest')"
  shows "\<exists>ps1 rest1. bind_variables vs (i + 1) m (ps1, rest1) = Inr (ps', rest') \<and>
           dom ps \<subseteq> dom ps1 \<and> (\<forall>k. k \<noteq> name v \<longrightarrow> ps1 k = ps k)"
proof (cases "plural v")
  case True
  with assms obtain xs ps1 where
    "store (name v) (Arr xs) ps = Inr ps1"
    "bind_variables vs (i + 1) m (ps1, rest) = Inr (ps', rest')"
    by (auto simp: Let_def split: sum.splits if_splits)
  then show ?thesis using store_dom store_other by metis
next
  case False
  show ?thesis
  proof (cases "prefix v = ''...''")
    case True
    with False assms show ?thesis by (auto simp: Let_def)
  next
    case no: False
    with False assms obtain x ps1 where
      "store (name v) x ps = Inr ps1"
      "bind_variables vs (i + 1) m (ps1, rest) = Inr (ps', rest')"
      by (auto simp: Let_def split: sum.splits)
    then show ?thesis using store_dom store_other by metis
  qed
qed

lemma bind_variables_dom:
  "bind_variables vs i m (ps, rest) = Inr (ps', rest') \<Longrightarrow> dom ps \<subseteq> dom ps'"
proof (induction vs arbitrary: i ps rest)
  case Nil
  then show ?case by simp
next
  case (Cons v vs)
  from bind_variables_step[OF Cons.prems]
  have "\<exists>ps1 rest1. bind_variables vs (i + 1) m (ps1, rest1) = Inr (ps', rest') \<and>
          dom ps \<subseteq> dom ps1"
    by blast
  then obtain ps1 rest1 where
    step: "bind_variables vs (i + 1) m (ps1, rest1) = Inr (ps', rest')"
    and sub: "dom ps \<subseteq> dom ps1"
    by blast
  from Cons.IH[OF step] sub show ?case by blast
qed

lemma bind_variables_keep:
  "bind_variables vs i m (ps, rest) = Inr (ps', rest') \<Longrightarrow> \<forall>v\<in>set vs. name v \<noteq> k \<Longrightarrow>
   ps' k = ps k"
proof (induction vs arbitrary: i ps rest)
  case Nil
  then show ?case by simp
next
  case (Cons v vs)
  from bind_variables_step[OF Cons.prems(1)] obtain ps1 rest1 where
    step: "bind_variables vs (i + 1) m (ps1, rest1) = Inr (ps', rest')"
    and same: "\<forall>k. k \<noteq> name v \<longrightarrow> ps1 k = ps k"
    by blast
  from Cons.IH[OF step] Cons.prems(2) same show ?case by auto
qed

lemma bind_variables_nth:
  assumes "bind_variables vs i m (ps, rest) = Inr (ps', rest')"
    and "j < length vs" and "\<not> plural (vs ! j)" and "prefix (vs ! j) \<noteq> ''...''"
    and "name (vs ! j) \<noteq> ''__proto__''"
  shows "name (vs ! j) \<in> dom ps' \<and>
         ((\<forall>k. j < k \<and> k < length vs \<longrightarrow> name (vs ! k) \<noteq> name (vs ! j)) \<longrightarrow>
          ps' (name (vs ! j)) =
            Some (if numeric (vs ! j) then parseInt (or_empty (m (i + j + 1)))
                  else Str (or_empty (m (i + j + 1)))))"
  using assms
proof (induction vs arbitrary: i j ps rest)
  case Nil
  then show ?case by simp
next
  case (Cons v vs)
  show ?case
  proof (cases j)
    case 0
    let ?val = "if numeric v then parseInt (or_empty (m (i + 1))) else Str (or_empty (m (i + 1)))"
    from Cons.prems 0 have step:
      "bind_variables vs (i + 1) m (ps(name v \<mapsto> ?val), rest) = Inr (ps', rest')"
      by (auto simp: Let_def store_plain split: if_splits)
    from bind_variables_dom[OF step] have "name v \<in> dom ps'" by auto
    moreover have "ps' (name v) = Some ?val"
      if "\<forall>k. 0 < k \<and> k < length (v # vs) \<longrightarrow> name ((v # vs) ! k) \<noteq> name v"
    proof -
      have "\<forall>u\<in>set vs. name u \<noteq> name v"
      proof
        fix u assume "u \<in> set vs"
        then obtain k where "k < length vs" "vs ! k = u" by (auto simp: in_set_conv_nth)
        with that[rule_format, of "Suc k"] show "name u \<noteq> name v" by simp
      qed
      from bind_variables_keep[OF step this] show ?thesis by simp
    qed
    ultimately show ?thesis using 0 by simp
  next
    case (Suc j')
    from bind_variables_step[OF Cons.prems(1)] obtain ps1 rest1 where
      step: "bind_variables vs (i + 1) m (ps1, rest1) = Inr (ps', rest')"
      by blast
    from Cons.IH[OF step, of j'] Cons.prems Suc
    have "name (vs ! j') \<in> dom ps' \<and>
         ((\<forall>k. j' < k \<and> k < length vs \<longrightarrow> name (vs ! k) \<noteq> name (vs ! j')) \<longrightarrow>
          ps' (name (vs ! j')) =
            Some (if numeric (vs ! j') then parseInt (or_empty (m (i + 1 + j' + 1)))
                  else Str (or_empty (m (i + 1 + j' + 1)))))"
      by simp
    moreover have "\<forall>k. j' < k \<and> k < length vs \<longrightarrow> name (vs ! k) \<noteq> name (vs ! j')"
      if "\<forall>k. j < k \<and> k < length (v # vs) \<longrightarrow> name ((v # vs) ! k) \<noteq> name ((v # vs) ! j)"
    proof (intro allI impI)
      fix k assume "j' < k \<and> k < length vs"
      with that[rule_format, of "Suc k"] Suc show "name (vs ! k) \<noteq> name (vs ! j')" by simp
    qed
    ultimately show ?thesis using Suc by auto
  qed
qed

lemma compile_optional_number:
  "compile ''/n/+id?'' ''n'' ins =
     Inr \<lparr>variables = [var ''+'' ''id'' ''?'' True],
          terms = [Literal ''/n'', Variable (var ''+'' ''id'' ''?'' True)],
          regExp = anchored (map Chr ''/n'' @ [Opt (Seq (Chr CHR ''/'') (Group 1 digits))]),
          route_destination = ''n''\<rparr>"
  by code_simp

section \<open>The router of the table of tags\<close>

lemma compile_tags:
  "map (\<lambda>(k, d). compile (''/'' @ k) d ins) tag_routes = [Inr tags_route, Inr tag_route]"
  by code_simp

lemma keys_tags: "Object_keys tag_routes = map fst tag_routes"
  by code_simp

lemma Router_tags:
  "\<exists>r. Router ''/'' tag_routes ins = Inr r \<and> table r = [tags_route, tag_route]"
proof -
  have plain: "\<forall>x\<in>set [tags_route, tag_route]. \<not> inherited (route_destination x)"
    by (simp add: tags_route_def tag_route_def inherited_def Object_prototype_def)
  have all: "list_all2 (\<lambda>k x. \<exists>d. map_of tag_routes k = Some d \<and> compile (''/'' @ k) d ins = Inr x)
               (map fst tag_routes) [tags_route, tag_route]"
    using compile_tags[of ins]
    by (simp add: tag_routes_def)
  from add_all_ex[OF plain all,
      of "\<lparr>table = [], backTable = Map.empty, termsForDestination = Map.empty\<rparr>"]
  show ?thesis
    by (simp add: Router_def keys_tags)
qed

lemma decode_example: "decodeURIComponent ''a%20b'' = Inr ''a b''"
  by code_simp

lemma encode_example:
  "encodeURIComponent (Str ''a b'') = ''a%20b''" "encodeURIComponent (Str ''c&d'') = ''c%26d''"
  by code_simp+

lemma char_of_space: "char_of (32::nat) = CHR '' ''"
  by code_simp

lemma tags_parse:
  "match tags_route ''/tags/a%20b&c'' =
     Inr (Some \<lparr>destination = ''tags'', parameters = Some [''tags'' \<mapsto> Arr [Str ''a b'', Str ''c'']],
                path = Undefined, remainingPath = Undefined\<rparr>)"
  by (simp add: tags_route_def word_def eval_simps char_of_space)

lemma tags_parse_tag: "match tags_route ''/tag/a%20b'' = Inr None"
  by (simp add: tags_route_def word_def eval_simps)

lemma tag_parse:
  "match tag_route ''/tag/a%20b'' =
     Inr (Some \<lparr>destination = ''tag'', parameters = Some [''tag'' \<mapsto> Str ''a%20b''],
                path = Undefined, remainingPath = Undefined\<rparr>)"
  by (simp add: tag_route_def eval_simps)


section \<open>Generating and parsing on the table of the test suite\<close>
































section \<open>The claims\<close>

text \<open>
  Claim C5. The router of the test suite holds the route \<^verbatim>\<open>"photos/+photoIds&"\<close> for the
  destination \<^verbatim>\<open>"photos"\<close> under the prefix \<^verbatim>\<open>"/"\<close>. Parsing \<^verbatim>\<open>"/photos"\<close> and
  \<^verbatim>\<open>"/photos/"\<close> both give the empty list for \<^verbatim>\<open>photoIds\<close>, and parsing
  \<^verbatim>\<open>"/photos/10&20&30"\<close> gives the destination \<^verbatim>\<open>"photos"\<close> with the list of the numbers
  10, 20 and 30.
\<close>

theorem plural_cardinality:
  "\<exists>r. Router ''/'' test_routes Undefined = Inr r \<and>
     parse r ''/photos'' =
       Inr (Some \<lparr>destination = ''photos'', parameters = Some [''photoIds'' \<mapsto> Arr []],
                  path = Undefined, remainingPath = Undefined\<rparr>) \<and>
     parse r ''/photos/'' =
       Inr (Some \<lparr>destination = ''photos'', parameters = Some [''photoIds'' \<mapsto> Arr []],
                  path = Undefined, remainingPath = Undefined\<rparr>) \<and>
     parse r ''/photos/10&20&30'' =
       Inr (Some \<lparr>destination = ''photos'',
                  parameters = Some [''photoIds'' \<mapsto> Arr [Num 10, Num 20, Num 30]],
                  path = Undefined, remainingPath = Undefined\<rparr>)"
proof -
  from Router_test_table[of Undefined] obtain r where
    r: "Router ''/'' test_routes Undefined = Inr r" and t: "table r = test_table" by blast
  have "parse r ''/photos/'' =
       Inr (Some \<lparr>destination = ''photos'', parameters = Some [''photoIds'' \<mapsto> Arr []],
                  path = Undefined, remainingPath = Undefined\<rparr>)"
    using match_photos[of "[]"] by (simp add: parse_def t test_table_def)
  then show ?thesis
    using r by (simp add: parse_def t test_table_def photos_short photos_three)
qed



text \<open>
  Claim C3. For every destination with at least one registered route, \<^verbatim>\<open>stringify\<close>
  generates the path from the route registered last for that destination, and from nothing
  else of the table: the routes registered before it for the same destination have no
  influence, whatever the parameters of the state.
\<close>

theorem stringify_last_registered:
  assumes "Router pre routes ins = Inr r" and "routes_for (destination st) r \<noteq> []"
  shows "stringify r st = generate (last (routes_for (destination st) r)) st"
  using stringify_registered[OF back_ok_Router[OF assms(1)] assms(2)] .

theorem stringify_last_registered_witness:
  "\<exists>r. Router ''/'' [(''a/:x'', ''d''), (''b/:y'', ''d'')] Undefined = Inr r \<and>
     length (routes_for ''d'' r) = 2 \<and>
     stringify r \<lparr>destination = ''d'', parameters = Some [''x'' \<mapsto> Str ''1''],
                  path = Undefined, remainingPath = Undefined\<rparr> = Inr (Str ''/b'')"
proof -
  let ?st = "\<lparr>destination = ''d'', parameters = Some [''x'' \<mapsto> Str ''1''],
              path = Undefined, remainingPath = Undefined\<rparr>"
  have "case Router ''/'' [(''a/:x'', ''d''), (''b/:y'', ''d'')] Undefined of
          Inl e \<Rightarrow> False
        | Inr r \<Rightarrow>
            map route_destination (table r) = [''d'', ''d''] \<and>
            map terms (table r) =
              [[Literal ''/a'', Variable (var '':'' ''x'' [] True)],
               [Literal ''/b'', Variable (var '':'' ''y'' [] True)]]"
    by code_simp
  then obtain r where r: "Router ''/'' [(''a/:x'', ''d''), (''b/:y'', ''d'')] Undefined = Inr r"
    and d: "map route_destination (table r) = [''d'', ''d'']"
    and ts: "map terms (table r) =
              [[Literal ''/a'', Variable (var '':'' ''x'' [] True)],
               [Literal ''/b'', Variable (var '':'' ''y'' [] True)]]"
    by (auto split: sum.splits)
  from d ts obtain a b where tab: "table r = [a, b]"
    and da: "route_destination a = ''d''" and db: "route_destination b = ''d''"
    and tb: "terms b = [Literal ''/b'', Variable (var '':'' ''y'' [] True)]"
    by (auto simp: map_eq_Cons_conv)
  have rf: "routes_for (destination ?st) r = [a, b]"
    by (simp add: routes_for_def tab da db)
  from stringify_last_registered[OF r, of ?st] rf
  have "stringify r ?st = generate b ?st" by simp
  also have "\<dots> = Inr (Str ''/b'')"
    by (simp add: generate_def tb term_parts_def param_simps var_def)
  finally show ?thesis using r rf by auto
qed





text \<open>
  Claim C8, on where \<^verbatim>\<open>parse\<close> stores the tail that a final \<^verbatim>\<open>...\<close> captures. For the
  route \<^verbatim>\<open>"files/..."\<close> and the path \<^verbatim>\<open>"/files/a%20b/c"\<close> the tail is stored as it
  stands, with its escape, and not among the parameters; the property that holds it is
  \<^verbatim>\<open>path\<close>, and the property \<^verbatim>\<open>remainingPath\<close> of the result is \<^verbatim>\<open>undefined\<close>.
  \<^verbatim>\<open>stringify\<close>, which reads \<^verbatim>\<open>remainingPath\<close>, gives the path without the tail for the
  result of \<^verbatim>\<open>parse\<close>, and the whole path once the tail is copied to
  \<^verbatim>\<open>remainingPath\<close>.
\<close>

theorem remainder_stored_as_path:
  "\<exists>r x. Router ''/'' [(''files/...'', ''files'')] Undefined = Inr r \<and>
     parse r ''/files/a%20b/c'' = Inr (Some x) \<and>
     x = \<lparr>destination = ''files'', parameters = Some Map.empty, path = Str ''/a%20b/c'',
          remainingPath = Undefined\<rparr> \<and>
     stringify r x = Inr (Str ''/files'') \<and>
     stringify r (x\<lparr>remainingPath := path x\<rparr>) = Inr (Str ''/files/a%20b/c'')"
proof -
  let ?route = "\<lparr>variables = [var ''...'' ''0'' [] True],
          terms = [Literal ''/files'', Variable (var ''...'' ''0'' [] True), PathTerm],
          regExp = anchored (map Chr ''/files'' @ [Group 1 (Seq (Opt (Chr CHR ''/'')) (Star Dot))]),
          route_destination = ''files''\<rparr>"
  let ?r = "\<lparr>table = [?route], backTable = [''files'' \<mapsto> [?route]],
             termsForDestination = [''files'' \<mapsto> [(''0'', var ''...'' ''0'' [] True)]]\<rparr>"
  let ?x = "\<lparr>destination = ''files'', parameters = Some Map.empty, path = Str ''/a%20b/c'',
          remainingPath = Undefined\<rparr>"
  have plain: "\<not> inherited ''files''"
    by (simp add: inherited_def Object_prototype_def)
  have r: "Router ''/'' [(''files/...'', ''files'')] Undefined = Inr ?r"
    using Router_single[of "''/''" "''files/...''" "''files''" Undefined] compile_files[of Undefined]
      add_route_value[of ?route
        "\<lparr>table = [], backTable = Map.empty, termsForDestination = Map.empty\<rparr>"] plain
    by (simp add: assign_def var_def)
  have p: "parse ?r ''/files/a%20b/c'' = Inr (Some ?x)"
    by (simp add: parse_def eval_simps is_line_terminator_def)
  have s1: "stringify ?r ?x = Inr (Str ''/files'')"
    by (simp add: stringify_def Let_def generate_def term_parts_def param_simps var_def)
  have s2: "stringify ?r (?x\<lparr>remainingPath := path ?x\<rparr>) = Inr (Str ''/files/a%20b/c'')"
    by (simp add: stringify_def Let_def generate_def term_parts_def param_simps var_def)
  from r p s1 s2 show ?thesis by blast
qed

text \<open>
  Claim C9, on matching without regard to letter case. A router built with the flag set
  matches \<^verbatim>\<open>"/photos"\<close> against the route \<^verbatim>\<open>"photos"\<close> and does not match
  \<^verbatim>\<open>"/PHOTOS"\<close>: \<^verbatim>\<open>compile\<close> does not hand the flag on to \<^verbatim>\<open>compileRegExp\<close>, which,
  given the flag, builds an expression that does match \<^verbatim>\<open>"/PHOTOS"\<close>.
\<close>

theorem insensitive_flag_dropped:
  "\<exists>r. Router ''/'' [(''photos'', ''photos'')] (Bool True) = Inr r \<and>
     (\<exists>x. parse r ''/photos'' = Inr (Some x) \<and> destination x = ''photos'') \<and>
     parse r ''/PHOTOS'' = Inr None \<and>
     (\<exists>re vs ts m. compileRegExp ''/photos'' (Bool True) = Inr (re, vs, ts) \<and>
        ignoreCase re \<and> exec re ''/PHOTOS'' = Some m)"
proof -
  have "case Router ''/'' [(''photos'', ''photos'')] (Bool True) of
          Inl e \<Rightarrow> False
        | Inr r \<Rightarrow>
            (case parse r ''/photos'' of Inr (Some x) \<Rightarrow> destination x = ''photos'' | _ \<Rightarrow> False) \<and>
            (case parse r ''/PHOTOS'' of Inr None \<Rightarrow> True | _ \<Rightarrow> False)"
    by code_simp
  then obtain r where r: "Router ''/'' [(''photos'', ''photos'')] (Bool True) = Inr r"
    and a: "\<exists>x. parse r ''/photos'' = Inr (Some x) \<and> destination x = ''photos''"
    and b: "parse r ''/PHOTOS'' = Inr None"
    by (auto split: sum.splits option.splits)
  have "case compileRegExp ''/photos'' (Bool True) of
          Inl e \<Rightarrow> False
        | Inr (re, vs, ts) \<Rightarrow>
            ignoreCase re \<and> (case exec re ''/PHOTOS'' of Some m \<Rightarrow> True | None \<Rightarrow> False)"
    by code_simp
  then have c: "\<exists>re vs ts m. compileRegExp ''/photos'' (Bool True) = Inr (re, vs, ts) \<and>
        ignoreCase re \<and> exec re ''/PHOTOS'' = Some m"
    by (auto split: sum.splits option.splits prod.splits)
  from r a b c show ?thesis by blast
qed


text \<open>
  Claim C10 fails in three ways. In the route \<^verbatim>\<open>"a/:x?/b/:x"\<close> the optional variable and
  a later one have the same name: for \<^verbatim>\<open>"/a/b/7"\<close> the segment of the optional one is
  absent and the key \<^verbatim>\<open>x\<close> is bound to \<^verbatim>\<open>"7"\<close>. In the route \<^verbatim>\<open>"a(b)/:id?"\<close> the
  parentheses of the literal text reach the regular expression as a group, so that the
  variable reads the capture of that group: for \<^verbatim>\<open>"/ab"\<close> the key \<^verbatim>\<open>id\<close> is bound to
  \<^verbatim>\<open>"b"\<close>. In the route \<^verbatim>\<open>"a/:__proto__?"\<close> the assignment to the key
  \<^verbatim>\<open>__proto__\<close> creates no property: for \<^verbatim>\<open>"/a"\<close> the parameters are empty.
\<close>

theorem optional_absent_counterexample:
  "(\<exists>r. Router ''/'' [(''a/:x?/b/:x'', ''d'')] Undefined = Inr r \<and>
        parse r ''/a/b/7'' =
          Inr (Some \<lparr>destination = ''d'', parameters = Some [''x'' \<mapsto> Str ''7''],
                     path = Undefined, remainingPath = Undefined\<rparr>)) \<and>
   (\<exists>r. Router ''/'' [(''a(b)/:id?'', ''d'')] Undefined = Inr r \<and>
        parse r ''/ab'' =
          Inr (Some \<lparr>destination = ''d'', parameters = Some [''id'' \<mapsto> Str ''b''],
                     path = Undefined, remainingPath = Undefined\<rparr>)) \<and>
   (\<exists>r. Router ''/'' [(''a/:__proto__?'', ''d'')] Undefined = Inr r \<and>
        parse r ''/a'' =
          Inr (Some \<lparr>destination = ''d'', parameters = Some Map.empty,
                     path = Undefined, remainingPath = Undefined\<rparr>))"
proof (intro conjI)
  from Router_one[OF _ plain_d(1), of "''/''" "''a/:x?/b/:x''" Undefined] compile_twice[of Undefined]
  obtain r where r: "Router ''/'' [(''a/:x?/b/:x'', ''d'')] Undefined = Inr r"
    and t: "table r = [\<lparr>variables = [var '':'' ''x'' ''?'' True, var '':'' ''x'' [] True],
          terms = [Literal ''/a'', Variable (var '':'' ''x'' ''?'' True),
                   Literal ''/b'', Variable (var '':'' ''x'' [] True)],
          regExp = anchored (map Chr ''/a'' @ [Opt (Seq (Chr CHR ''/'') (Group 1 segment))] @
                             map Chr ''/b'' @ [Seq (Chr CHR ''/'') (Group 2 segment)]),
          route_destination = ''d''\<rparr>]"
    by auto
  have "parse r ''/a/b/7'' =
          Inr (Some \<lparr>destination = ''d'', parameters = Some [''x'' \<mapsto> Str ''7''],
                     path = Undefined, remainingPath = Undefined\<rparr>)"
    unfolding parse_one[OF t] by (simp add: eval_simps)
  with r show "\<exists>r. Router ''/'' [(''a/:x?/b/:x'', ''d'')] Undefined = Inr r \<and>
        parse r ''/a/b/7'' =
          Inr (Some \<lparr>destination = ''d'', parameters = Some [''x'' \<mapsto> Str ''7''],
                     path = Undefined, remainingPath = Undefined\<rparr>)"
    by blast
next
  from Router_one[OF _ plain_d(1), of "''/''" "''a(b)/:id?''" Undefined] compile_parenthesis[of Undefined]
  obtain r where r: "Router ''/'' [(''a(b)/:id?'', ''d'')] Undefined = Inr r"
    and t: "table r = [\<lparr>variables = [var '':'' ''id'' ''?'' True],
          terms = [Literal ''/a(b)'', Variable (var '':'' ''id'' ''?'' True)],
          regExp = anchored (map Chr ''/a'' @
                     [Group 1 (Chr CHR ''b''), Opt (Seq (Chr CHR ''/'') (Group 2 segment))]),
          route_destination = ''d''\<rparr>]"
    by auto
  have "parse r ''/ab'' =
          Inr (Some \<lparr>destination = ''d'', parameters = Some [''id'' \<mapsto> Str ''b''],
                     path = Undefined, remainingPath = Undefined\<rparr>)"
    unfolding parse_one[OF t] by (simp add: eval_simps)
  with r show "\<exists>r. Router ''/'' [(''a(b)/:id?'', ''d'')] Undefined = Inr r \<and>
        parse r ''/ab'' =
          Inr (Some \<lparr>destination = ''d'', parameters = Some [''id'' \<mapsto> Str ''b''],
                     path = Undefined, remainingPath = Undefined\<rparr>)"
    by blast
next
  from Router_one[OF _ plain_d(1), of "''/''" "''a/:__proto__?''" Undefined] compile_proto[of Undefined]
  obtain r where r: "Router ''/'' [(''a/:__proto__?'', ''d'')] Undefined = Inr r"
    and t: "table r = [\<lparr>variables = [var '':'' ''__proto__'' ''?'' True],
          terms = [Literal ''/a'', Variable (var '':'' ''__proto__'' ''?'' True)],
          regExp = anchored (map Chr ''/a'' @ [Opt (Seq (Chr CHR ''/'') (Group 1 segment))]),
          route_destination = ''d''\<rparr>]"
    by auto
  have "parse r ''/a'' =
          Inr (Some \<lparr>destination = ''d'', parameters = Some Map.empty,
                     path = Undefined, remainingPath = Undefined\<rparr>)"
    unfolding parse_one[OF t] by (simp add: eval_simps)
  with r show "\<exists>r. Router ''/'' [(''a/:__proto__?'', ''d'')] Undefined = Inr r \<and>
        parse r ''/a'' =
          Inr (Some \<lparr>destination = ''d'', parameters = Some Map.empty,
                     path = Undefined, remainingPath = Undefined\<rparr>)"
    by blast
qed

text \<open>
  Claim C10 as amended. Let a route have an optional singular variable of a string kind or
  of the integer kind whose name is not \<^verbatim>\<open>__proto__\<close>, and let a path match the route.
  Then the result of \<^verbatim>\<open>match\<close> has the key of the variable among its parameters. When the
  capture that the variable reads (the one at its position among the variables) is absent or
  empty and no later variable of the pattern has the same key, the value is the empty string
  for a string kind and \<^verbatim>\<open>parseInt("")\<close>, which is \<^verbatim>\<open>NaN\<close>, for the integer kind.
\<close>

theorem optional_absent_bound:
  assumes "exec (regExp r) p = Some m" and "match r p = Inr (Some x)"
    and "j < length (variables r)" and "optional (variables r ! j)"
    and "\<not> plural (variables r ! j)" and "prefix (variables r ! j) \<noteq> ''...''"
    and "name (variables r ! j) \<noteq> ''__proto__''"
  shows "\<exists>ps. parameters x = Some ps \<and> name (variables r ! j) \<in> dom ps \<and>
           (or_empty (m (j + 1)) = [] \<and>
            (\<forall>k. j < k \<and> k < length (variables r) \<longrightarrow>
                 name (variables r ! k) \<noteq> name (variables r ! j)) \<longrightarrow>
            ps (name (variables r ! j)) =
              Some (if numeric (variables r ! j) then NaN else Str []))"
proof -
  from assms(1,2) obtain ps rest where
    b: "bind_variables (variables r) 0 m (Map.empty, Undefined) = Inr (ps, rest)"
    and x: "parameters x = Some ps"
    by (auto simp: match_def split: sum.splits)
  from bind_variables_nth[OF b assms(3,5,6,7)] x show ?thesis
    by (auto simp: parseInt_empty)
qed

theorem optional_absent_bound_witness:
  "\<exists>m x ps rn m' x' ps'.
     exec (regExp notes_route) ''/notes'' = Some m \<and> or_empty (m 1) = [] \<and>
     match notes_route ''/notes'' = Inr (Some x) \<and> parameters x = Some ps \<and>
     ps ''noteId'' = Some (Str []) \<and>
     compile ''/n/+id?'' ''n'' Undefined = Inr rn \<and>
     exec (regExp rn) ''/n'' = Some m' \<and> or_empty (m' 1) = [] \<and>
     match rn ''/n'' = Inr (Some x') \<and> parameters x' = Some ps' \<and> ps' ''id'' = Some NaN"
proof -
  let ?rn = "\<lparr>variables = [var ''+'' ''id'' ''?'' True],
          terms = [Literal ''/n'', Variable (var ''+'' ''id'' ''?'' True)],
          regExp = anchored (map Chr ''/n'' @ [Opt (Seq (Chr CHR ''/'') (Group 1 digits))]),
          route_destination = ''n''\<rparr>"
  have e: "exec (regExp notes_route) ''/notes'' = Some [0 \<mapsto> ''/notes'']"
    by (simp add: notes_route_def eval_simps)
  have mt: "match notes_route ''/notes'' =
      Inr (Some \<lparr>destination = ''notes'', parameters = Some [''noteId'' \<mapsto> Str []],
                 path = Undefined, remainingPath = Undefined\<rparr>)"
    by (simp add: notes_route_def eval_simps)
  from optional_absent_bound[OF e mt, of 0]
  have a: "\<exists>ps. Some [''noteId'' \<mapsto> Str []] = Some ps \<and> ps ''noteId'' = Some (Str [])"
    by (simp add: notes_route_def var_def or_empty_def truthy_def)
  have e': "exec (regExp ?rn) ''/n'' = Some [0 \<mapsto> ''/n'']"
    by (simp add: eval_simps)
  have mt': "match ?rn ''/n'' =
      Inr (Some \<lparr>destination = ''n'', parameters = Some [''id'' \<mapsto> NaN],
                 path = Undefined, remainingPath = Undefined\<rparr>)"
    by (simp add: eval_simps)
  from optional_absent_bound[OF e' mt', of 0]
  have b: "\<exists>ps. Some [''id'' \<mapsto> NaN] = Some ps \<and> ps ''id'' = Some NaN"
    by (simp add: var_def or_empty_def truthy_def)
  show ?thesis
    using e mt e' mt' compile_optional_number[of Undefined] a b
    by (auto simp: or_empty_def truthy_def)
qed

text \<open>
  Claim C7. Plural and singular variables are decoded and encoded differently. In
  \<^verbatim>\<open>match\<close>, a plural variable with a non-empty capture is bound to the elements of the
  capture split at \<^verbatim>\<open>&\<close>, each percent-decoded (a malformed escape raises) and, for the
  integer kind, parsed as an integer; a singular variable is bound to its capture as it
  stands (parsed as an integer for the integer kind), and the capture of a singular
  \<^verbatim>\<open>...\<close> becomes the remaining path. The binding is the assignment
  \<^verbatim>\<open>parameters[name] = value\<close>, which adds the key for every name but \<^verbatim>\<open>__proto__\<close>.
  In \<^verbatim>\<open>stringify\<close>, a plural term with an array
  emits the percent-encoded elements joined by \<^verbatim>\<open>&\<close>, and a singular term with a string
  emits the string as it stands. For the table of \<^verbatim>\<open>"tags/:tags&"\<close> and
  \<^verbatim>\<open>"tag/:tag"\<close>: \<^verbatim>\<open>"/tags/a%20b&c"\<close> parses to the list of \<^verbatim>\<open>"a b"\<close> and \<^verbatim>\<open>"c"\<close>,
  \<^verbatim>\<open>"/tag/a%20b"\<close> parses to \<^verbatim>\<open>"a%20b"\<close>, the list of \<^verbatim>\<open>"a b"\<close> and \<^verbatim>\<open>"c&d"\<close> is
  written \<^verbatim>\<open>"/tags/a%20b&c%26d"\<close>, and the string \<^verbatim>\<open>"a b"\<close> is written
  \<^verbatim>\<open>"/tag/a b"\<close>.
\<close>

theorem plural_singular_asymmetry:
  "(\<forall>v vs i m c s ps rest.
      bind_variables (v\<lparr>plural := True\<rparr> # vs) i (m(i + 1 \<mapsto> c # s)) (ps, rest) =
        (case decode_all (split CHR ''&'' (c # s)) of
           Inl e \<Rightarrow> Inl e
         | Inr values \<Rightarrow>
             (case store (name v)
                     (Arr (if numeric v then map parseInt values else map Str values)) ps of
                Inl e \<Rightarrow> Inl e
              | Inr ps' \<Rightarrow> bind_variables vs (i + 1) (m(i + 1 \<mapsto> c # s)) (ps', rest)))) \<and>
   (\<forall>v vs i m c ps rest.
      bind_variables (v\<lparr>plural := False, prefix := '':''\<rparr> # vs) i (m(i + 1 \<mapsto> c)) (ps, rest) =
        (case store (name v) (if numeric v then parseInt c else Str c) ps of
           Inl e \<Rightarrow> Inl e
         | Inr ps' \<Rightarrow> bind_variables vs (i + 1) (m(i + 1 \<mapsto> c)) (ps', rest))) \<and>
   (\<forall>v vs i m c ps rest.
      bind_variables (v\<lparr>plural := False, prefix := ''...''\<rparr> # vs) i (m(i + 1 \<mapsto> c)) (ps, rest) =
        bind_variables vs (i + 1) (m(i + 1 \<mapsto> c))
          (ps, if numeric v then parseInt c else Str c)) \<and>
   (\<forall>k x ps.
      store k x ps =
        (if k = ''__proto__'' then (case x of Arr xs \<Rightarrow> Inl Unmodelled | _ \<Rightarrow> Inr ps)
         else Inr (ps(k \<mapsto> x)))) \<and>
   (\<forall>d ps p q v xs.
      term_parts \<lparr>destination = d, parameters = Some (ps(name v \<mapsto> Arr xs)), path = p,
                  remainingPath = q\<rparr> (Variable (v\<lparr>plural := True\<rparr>)) =
        Inr ((if slash v then [''/''] else []) @ [join ''&'' (map encodeURIComponent xs)])) \<and>
   (\<forall>d ps p q v x.
      term_parts \<lparr>destination = d, parameters = Some (ps(name v \<mapsto> Str x)), path = p,
                  remainingPath = q\<rparr> (Variable (v\<lparr>plural := False\<rparr>)) =
        Inr ((if slash v then [''/''] else []) @ [x])) \<and>
   (\<exists>r. Router ''/'' tag_routes Undefined = Inr r \<and>
      parse r ''/tags/a%20b&c'' =
        Inr (Some \<lparr>destination = ''tags'',
                   parameters = Some [''tags'' \<mapsto> Arr [Str ''a b'', Str ''c'']],
                   path = Undefined, remainingPath = Undefined\<rparr>) \<and>
      parse r ''/tag/a%20b'' =
        Inr (Some \<lparr>destination = ''tag'', parameters = Some [''tag'' \<mapsto> Str ''a%20b''],
                   path = Undefined, remainingPath = Undefined\<rparr>) \<and>
      stringify r \<lparr>destination = ''tags'',
                   parameters = Some [''tags'' \<mapsto> Arr [Str ''a b'', Str ''c&d'']],
                   path = Undefined, remainingPath = Undefined\<rparr> =
        Inr (Str ''/tags/a%20b&c%26d'') \<and>
      stringify r \<lparr>destination = ''tag'', parameters = Some [''tag'' \<mapsto> Str ''a b''],
                   path = Undefined, remainingPath = Undefined\<rparr> =
        Inr (Str ''/tag/a b''))"
proof -
  have a: "bind_variables (v\<lparr>plural := True\<rparr> # vs) i (m(i + 1 \<mapsto> c # s)) (ps, rest) =
        (case decode_all (split CHR ''&'' (c # s)) of
           Inl e \<Rightarrow> Inl e
         | Inr values \<Rightarrow>
             (case store (name v)
                     (Arr (if numeric v then map parseInt values else map Str values)) ps of
                Inl e \<Rightarrow> Inl e
              | Inr ps' \<Rightarrow> bind_variables vs (i + 1) (m(i + 1 \<mapsto> c # s)) (ps', rest)))" for v vs i m c s ps rest
    by (simp add: Let_def or_empty_def truthy_def text_of_def del: split.simps split: sum.splits)
  have b: "bind_variables (v\<lparr>plural := False, prefix := '':''\<rparr> # vs) i (m(i + 1 \<mapsto> c)) (ps, rest) =
        (case store (name v) (if numeric v then parseInt c else Str c) ps of
           Inl e \<Rightarrow> Inl e
         | Inr ps' \<Rightarrow> bind_variables vs (i + 1) (m(i + 1 \<mapsto> c)) (ps', rest))"
    for v vs i m c ps rest
    by (simp add: Let_def or_empty_def truthy_def text_of_def split: sum.splits)
  have c: "bind_variables (v\<lparr>plural := False, prefix := ''...''\<rparr> # vs) i (m(i + 1 \<mapsto> c)) (ps, rest) =
        bind_variables vs (i + 1) (m(i + 1 \<mapsto> c))
          (ps, if numeric v then parseInt c else Str c)"
    for v vs i m c ps rest
    by (simp add: Let_def or_empty_def truthy_def text_of_def)
  have d: "term_parts \<lparr>destination = d, parameters = Some (ps(name v \<mapsto> Arr xs)), path = p,
                  remainingPath = q\<rparr> (Variable (v\<lparr>plural := True\<rparr>)) =
        Inr ((if slash v then [''/''] else []) @ [join ''&'' (map encodeURIComponent xs)])"
    for d ps p q v xs
    by (simp add: term_parts_def param_simps)
  have e: "term_parts \<lparr>destination = d, parameters = Some (ps(name v \<mapsto> Str x)), path = p,
                  remainingPath = q\<rparr> (Variable (v\<lparr>plural := False\<rparr>)) =
        Inr ((if slash v then [''/''] else []) @ [x])"
    for d ps p q v x
    by (simp add: term_parts_def param_simps)
  from Router_tags[of Undefined] obtain r where
    r: "Router ''/'' tag_routes Undefined = Inr r" and t: "table r = [tags_route, tag_route]"
    by blast
  note ok = back_ok_Router[OF r]
  have p1: "parse r ''/tags/a%20b&c'' =
        Inr (Some \<lparr>destination = ''tags'',
                   parameters = Some [''tags'' \<mapsto> Arr [Str ''a b'', Str ''c'']],
                   path = Undefined, remainingPath = Undefined\<rparr>)"
    by (simp add: parse_def t tags_parse)
  have p2: "parse r ''/tag/a%20b'' =
        Inr (Some \<lparr>destination = ''tag'', parameters = Some [''tag'' \<mapsto> Str ''a%20b''],
                   path = Undefined, remainingPath = Undefined\<rparr>)"
    by (simp add: parse_def t tags_parse_tag tag_parse)
  have rf: "routes_for ''tags'' r = [tags_route]" "routes_for ''tag'' r = [tag_route]"
    by (simp_all add: routes_for_def t tags_route_def tag_route_def)
  have s1: "stringify r \<lparr>destination = ''tags'',
                   parameters = Some [''tags'' \<mapsto> Arr [Str ''a b'', Str ''c&d'']],
                   path = Undefined, remainingPath = Undefined\<rparr> =
        Inr (Str ''/tags/a%20b&c%26d'')"
    using stringify_registered[OF ok, of "\<lparr>destination = ''tags'',
                   parameters = Some [''tags'' \<mapsto> Arr [Str ''a b'', Str ''c&d'']],
                   path = Undefined, remainingPath = Undefined\<rparr>"] rf
    by (simp add: generate_def tags_route_def term_parts_def param_simps var_def encode_example)
  have s2: "stringify r \<lparr>destination = ''tag'', parameters = Some [''tag'' \<mapsto> Str ''a b''],
                   path = Undefined, remainingPath = Undefined\<rparr> =
        Inr (Str ''/tag/a b'')"
    using stringify_registered[OF ok, of "\<lparr>destination = ''tag'',
                   parameters = Some [''tag'' \<mapsto> Str ''a b''],
                   path = Undefined, remainingPath = Undefined\<rparr>"] rf
    by (simp add: generate_def tag_route_def term_parts_def param_simps var_def)
  from r p1 p2 s1 s2 have ex: "\<exists>r. Router ''/'' tag_routes Undefined = Inr r \<and>
      parse r ''/tags/a%20b&c'' =
        Inr (Some \<lparr>destination = ''tags'',
                   parameters = Some [''tags'' \<mapsto> Arr [Str ''a b'', Str ''c'']],
                   path = Undefined, remainingPath = Undefined\<rparr>) \<and>
      parse r ''/tag/a%20b'' =
        Inr (Some \<lparr>destination = ''tag'', parameters = Some [''tag'' \<mapsto> Str ''a%20b''],
                   path = Undefined, remainingPath = Undefined\<rparr>) \<and>
      stringify r \<lparr>destination = ''tags'',
                   parameters = Some [''tags'' \<mapsto> Arr [Str ''a b'', Str ''c&d'']],
                   path = Undefined, remainingPath = Undefined\<rparr> =
        Inr (Str ''/tags/a%20b&c%26d'') \<and>
      stringify r \<lparr>destination = ''tag'', parameters = Some [''tag'' \<mapsto> Str ''a b''],
                   path = Undefined, remainingPath = Undefined\<rparr> =
        Inr (Str ''/tag/a b'')"
    by blast
  have st: "store k x ps =
        (if k = ''__proto__'' then (case x of Arr xs \<Rightarrow> Inl Unmodelled | _ \<Rightarrow> Inr ps)
         else Inr (ps(k \<mapsto> x)))" for k x ps
    by (simp add: store_def)
  show ?thesis by (intro conjI allI a b c st d e ex)
qed




end
